theory Spec2Isabelle
  imports Main "HOL-Library.Word"
begin

unbundle bit_operations_syntax

section \<open>The xmega character-device I/O subsystem (xmega\_io.c, build b119)\<close>

text \<open>
  The development embeds the device control block, the receive ring buffer with its two
  interrupt handlers, the single-character primitives and the mode-dispatch read and write
  engine of \<^verbatim>\<open>xmega_io.c\<close>, together with the open and close entry points.

  Conventions of the embedding.
  \<^item> C integers keep their width: \<^verbatim>\<open>uint8_t\<close> and \<^verbatim>\<open>uint_fast8_t\<close> (8 bits on the
    AVR) are \<open>8 word\<close>, \<^verbatim>\<open>int16_t\<close> is \<open>16 word\<close> read through the signed comparisons
    \<open><s\<close>, \<^verbatim>\<open>uint32_t\<close> is \<open>32 word\<close>. Decrement and increment wrap.
  \<^item> The limits \<^verbatim>\<open>rx_size_max\<close> and \<^verbatim>\<open>tx_size_max\<close> of the control block are
    \<^verbatim>\<open>int16_t\<close>, the type of the argument that \<^verbatim>\<open>_control_USART\<close> stores into them.
  \<^item> \<^verbatim>\<open>char\<close> is \<open>8 word\<close> and plain \<^verbatim>\<open>char\<close> is signed, so that the test
    \<^verbatim>\<open>c == -1\<close> of the source holds exactly for the byte 0xFF.
  \<^item> A \<^verbatim>\<open>char *\<close> argument is the memory found from that address on: a function from
    the offset to the byte stored there. The array \<^verbatim>\<open>rx_buf\<close> inside the control block is
    handled the same way; offsets at or beyond its size name memory outside of the array.
  \<^item> The local index \<^verbatim>\<open>i\<close> of the read and write loops is a natural number and is
    converted to \<^verbatim>\<open>int16_t\<close> where it is returned.
  \<^item> The module's variables (\<^verbatim>\<open>errno\<close>, \<^verbatim>\<open>fd_usb\<close>, \<^verbatim>\<open>fd_rs485\<close>) form one record that
    every operation takes and returns. A pointer to a control block is one of the two
    references \<open>Ref_fd_usb\<close> and \<open>Ref_fd_rs485\<close>.
  \<^item> The transmitter is the list of bytes written to the data register of the USART of a
    control block, oldest first. A block that was never opened has a null USART pointer,
    and a write through it has no result. The spin on the data-register-empty flag is not
    modelled: the hardware is taken to raise the flag.
  \<^item> \<^verbatim>\<open>sleep_mode()\<close> halts the processor until the next interrupt. The environment is
    the list \<open>irqs\<close> of receive interrupts that are still to come; sleeping runs the handler
    of the next one, and with none left the processor sleeps forever: the read has no
    result (\<open>None\<close>). The counter \<open>sleeps\<close> records every entry into the sleep state.
    An interrupt that arrives while the foreground runs is a step of its own, between two
    foreground calls (\<open>usb_run\<close>).
  \<^item> The header of build b119 is not part of the sources. The macros it would define are
    the fields of the record \<open>macros\<close>, a parameter of every operation that uses one.
    The flag and device constants are those of \<^verbatim>\<open>IOsystem_b009/xmega_io.h\<close>; the values of
    \<^verbatim>\<open>STR_MODE\<close> and \<^verbatim>\<open>PSTR_MODE\<close> are those given in the comments of \<^verbatim>\<open>xio_read\<close> and
    \<^verbatim>\<open>xio_write\<close>. The error numbers of \<^verbatim>\<open>xmega_errno.h\<close> are a datatype.
\<close>

subsection \<open>Types and constants\<close>

type_synonym uint8_t = "8 word"
type_synonym int8_t = "8 word"
type_synonym int16_t = "16 word"
type_synonym uint32_t = "32 word"
type_synonym char_t = "8 word"
type_synonym mem = "nat \<Rightarrow> char_t"

datatype errno_t = E_NONE | ENODEV | EINVAL | EAGAIN | EFBIG | EMSGSIZE | EBADF | EWTF

record macros =
  USART_RX_BUFSIZE :: int
  READ_BUFFER_SIZE :: int
  NO_LIMIT :: int16_t
  ERR_EOF :: char_t

definition FD_USB :: uint8_t where "FD_USB = 1"
definition FD_RS485 :: uint8_t where "FD_RS485 = 2"

definition SIZE_MODE :: int8_t where "SIZE_MODE = 0"
definition LINE_MODE :: int8_t where "LINE_MODE = - 1"
definition STR_MODE :: int8_t where "STR_MODE = - 2"
definition PSTR_MODE :: int8_t where "PSTR_MODE = - 3"
definition NUL :: char_t where "NUL = 0"

definition DEV_USARTC0 :: uint8_t where "DEV_USARTC0 = 17"
definition DEV_USARTC1 :: uint8_t where "DEV_USARTC1 = 18"
definition DEV_USB :: uint8_t where "DEV_USB = 43"
definition DEV_RS485 :: uint8_t where "DEV_RS485 = 44"

definition IO_BAUD_UNSPECIFIED :: uint8_t where "IO_BAUD_UNSPECIFIED = 0"
definition IO_BAUD_115200 :: uint8_t where "IO_BAUD_115200 = 5"
definition IO_BAUD_DEFAULT :: uint8_t where "IO_BAUD_DEFAULT = IO_BAUD_115200"

definition IO_BAUD_gm :: uint32_t where "IO_BAUD_gm = 0x0000000F"
definition IO_RDONLY :: uint32_t where "IO_RDONLY = push_bit 8 1"
definition IO_WRONLY :: uint32_t where "IO_WRONLY = push_bit 9 1"
definition IO_RDWR :: uint32_t where "IO_RDWR = 0"
definition IO_ECHO :: uint32_t where "IO_ECHO = push_bit 10 1"
definition IO_NOECHO :: uint32_t where "IO_NOECHO = push_bit 11 1"
definition IO_RDBLOCK :: uint32_t where "IO_RDBLOCK = push_bit 12 1"
definition IO_WRBLOCK :: uint32_t where "IO_WRBLOCK = push_bit 13 1"
definition IO_RDNONBLOCK :: uint32_t where "IO_RDNONBLOCK = push_bit 14 1"
definition IO_WRNONBLOCK :: uint32_t where "IO_WRNONBLOCK = push_bit 15 1"

definition IO_FLAG_RD_bm :: uint8_t where "IO_FLAG_RD_bm = push_bit 0 1"
definition IO_FLAG_WR_bm :: uint8_t where "IO_FLAG_WR_bm = push_bit 1 1"
definition IO_FLAG_RD_BLOCK_bm :: uint8_t where "IO_FLAG_RD_BLOCK_bm = push_bit 2 1"
definition IO_FLAG_WR_BLOCK_bm :: uint8_t where "IO_FLAG_WR_BLOCK_bm = push_bit 3 1"
definition IO_FLAG_ECHO_CHAR_bm :: uint8_t where "IO_FLAG_ECHO_CHAR_bm = push_bit 4 1"

definition IO_FLAG_DEFAULT_gm :: uint8_t where
  "IO_FLAG_DEFAULT_gm =
     IO_FLAG_RD_bm OR IO_FLAG_WR_bm OR IO_FLAG_RD_BLOCK_bm OR IO_FLAG_ECHO_CHAR_bm"

definition READ_ENABLED :: "uint8_t \<Rightarrow> bool" where
  "READ_ENABLED a = (a AND IO_FLAG_RD_bm \<noteq> 0)"
definition WRITE_ENABLED :: "uint8_t \<Rightarrow> bool" where
  "WRITE_ENABLED a = (a AND IO_FLAG_WR_bm \<noteq> 0)"
definition BLOCKING_ENABLED :: "uint8_t \<Rightarrow> bool" where
  "BLOCKING_ENABLED a = (a AND IO_FLAG_RD_BLOCK_bm \<noteq> 0)"
definition ECHO_ENABLED :: "uint8_t \<Rightarrow> bool" where
  "ECHO_ENABLED a = (a AND IO_FLAG_ECHO_CHAR_bm \<noteq> 0)"

subsection \<open>The device control block and the module state\<close>

text \<open>
  The pointer \<^verbatim>\<open>usart\<close> of a control block: null in a block that was never opened, or
  one of the eight entries of the table \<^verbatim>\<open>usel\<close>. The bytes written to the data register
  through that pointer are kept with the block, in \<open>usart_DATA\<close>.
\<close>

datatype USART_ptr = NULL | USARTC0 | USARTC1 | USARTD0 | USARTD1 | USARTE0 | USARTE1
  | USARTF0 | USARTF1

definition usel :: "USART_ptr list" where
  "usel = [USARTC0, USARTC1, USARTD0, USARTD1, USARTE0, USARTE1, USARTF0, USARTF1]"

record fdUSART =
  fd :: uint8_t
  baud :: uint8_t
  flags :: uint8_t
  rx_buf_tail :: uint8_t
  rx_buf_head :: uint8_t
  tx_buf_tail :: uint8_t
  tx_buf_head :: uint8_t
  rx_buf :: mem
  rx_size_max :: int16_t
  tx_size_max :: int16_t
  usart :: USART_ptr
  usart_DATA :: "char_t list"

datatype irq = USARTC0_RXC_vect char_t | USARTC1_RXC_vect char_t

record xio =
  errno :: errno_t
  fd_usb :: fdUSART
  fd_rs485 :: fdUSART
  sleeps :: nat
  irqs :: "irq list"

datatype fdref = Ref_fd_usb | Ref_fd_rs485

text \<open>Reading and writing through a pointer to one of the two control blocks.\<close>

fun deref :: "xio \<Rightarrow> fdref \<Rightarrow> fdUSART" where
  "deref s Ref_fd_usb = fd_usb s"
| "deref s Ref_fd_rs485 = fd_rs485 s"

fun assign :: "fdref \<Rightarrow> (fdUSART \<Rightarrow> fdUSART) \<Rightarrow> xio \<Rightarrow> xio" where
  "assign Ref_fd_usb g s = s\<lparr>fd_usb := g (fd_usb s)\<rparr>"
| "assign Ref_fd_rs485 g s = s\<lparr>fd_rs485 := g (fd_rs485 s)\<rparr>"

text \<open>\<^verbatim>\<open>fd_ptrs\<close> as \<^verbatim>\<open>xio_init\<close> leaves it: entry 0 is the null pointer.\<close>

definition fd_ptrs :: "uint8_t \<Rightarrow> fdref option" where
  "fd_ptrs k = (if k = 1 then Some Ref_fd_usb else if k = 2 then Some Ref_fd_rs485 else None)"

text \<open>The table \<^verbatim>\<open>fdes\<close> from device numbers to file descriptors.\<close>

definition fdes :: "uint8_t list" where
  "fdes = [0,
           0, 0, 0, 0, 0, 0, 0, 0,
           0, 0, 0, 0, 0, 0, 0, 0,
           1, 2, 0, 0, 0, 0, 0, 0,
           0, 0, 0, 0,
           0, 0,
           0,
           0,
           0, 0,
           0, 0,
           0, 0, 0, 0, 0,
           0,
           1, 2, 0, 0,
           0,
           0]"

subsection \<open>Receive interrupts\<close>

text \<open>
  \<^verbatim>\<open>ISR(USB_RX_ISR_vect)\<close> and \<^verbatim>\<open>ISR(USARTC1_RXC_vect)\<close>. The argument \<open>DATA\<close> is the byte
  waiting in the data register of the USART; the handler loads it, through the pointer
  \<^verbatim>\<open>usart\<close> of its control block, only on the normal path.
\<close>

definition ISR_USB_RX :: "macros \<Rightarrow> char_t \<Rightarrow> xio \<Rightarrow> xio" where
  "ISR_USB_RX K DATA s =
     (let h1 = rx_buf_head (fd_usb s) - 1;
          h2 = (if h1 = 0 then word_of_int (USART_RX_BUFSIZE K - 1) else h1)
      in if h2 \<noteq> rx_buf_tail (fd_usb s)
         then s\<lparr>fd_usb := (fd_usb s)\<lparr>rx_buf_head := h2,
                                      rx_buf := (rx_buf (fd_usb s))(unat h2 := DATA)\<rparr>\<rparr>
         else let h3 = h2 + 1;
                  h4 = (if USART_RX_BUFSIZE K - 1 < uint h3 then 1 else h3)
              in s\<lparr>fd_usb := (fd_usb s)\<lparr>rx_buf_head := h4\<rparr>\<rparr>)"

definition ISR_USARTC1_RXC :: "macros \<Rightarrow> char_t \<Rightarrow> xio \<Rightarrow> xio" where
  "ISR_USARTC1_RXC K DATA s =
     (let h1 = rx_buf_head (fd_rs485 s) - 1;
          h2 = (if h1 = 0 then word_of_int (USART_RX_BUFSIZE K - 1) else h1)
      in if h2 \<noteq> rx_buf_tail (fd_rs485 s)
         then s\<lparr>fd_rs485 := (fd_rs485 s)\<lparr>rx_buf_head := h2,
                                          rx_buf := (rx_buf (fd_rs485 s))(unat h2 := DATA)\<rparr>\<rparr>
         else let h3 = h2 + 1;
                  h4 = (if USART_RX_BUFSIZE K - 1 < uint h3 then 1 else h3)
              in s\<lparr>fd_rs485 := (fd_rs485 s)\<lparr>rx_buf_head := h4\<rparr>\<rparr>)"

text \<open>
  A receive interrupt taken. \<open>normal_path K d\<close> is the test of the handlers for the
  control block \<open>d\<close>: the head, stepped, differs from the tail. On that path the handler
  loads the data register through \<^verbatim>\<open>usart\<close>; through a null pointer the load, and with it
  the run of the handler, has no defined result. The path taken on a full buffer does not
  touch the USART.
\<close>

definition normal_path :: "macros \<Rightarrow> fdUSART \<Rightarrow> bool" where
  "normal_path K d =
     (let h1 = rx_buf_head d - 1;
          h2 = (if h1 = 0 then word_of_int (USART_RX_BUFSIZE K - 1) else h1)
      in h2 \<noteq> rx_buf_tail d)"

fun run_irq :: "macros \<Rightarrow> irq \<Rightarrow> xio \<Rightarrow> xio option" where
  "run_irq K (USARTC0_RXC_vect DATA) s =
     (if normal_path K (fd_usb s) \<and> usart (fd_usb s) = NULL then None
      else Some (ISR_USB_RX K DATA s))"
| "run_irq K (USARTC1_RXC_vect DATA) s =
     (if normal_path K (fd_rs485 s) \<and> usart (fd_rs485 s) = NULL then None
      else Some (ISR_USARTC1_RXC K DATA s))"

text \<open>
  \<^verbatim>\<open>sleep_mode()\<close>: the processor halts and the next receive interrupt wakes it; its
  handler has run when the call returns. Without a further interrupt it never returns.
\<close>

definition sleep_mode :: "macros \<Rightarrow> xio \<Rightarrow> xio option" where
  "sleep_mode K s =
     (case irqs s of
        [] \<Rightarrow> None
      | q # qs \<Rightarrow> run_irq K q (s\<lparr>sleeps := sleeps s + 1, irqs := qs\<rparr>))"

subsection \<open>Single-character primitives\<close>

text \<open>
  \<^verbatim>\<open>_write_char_USART\<close> reads the status register and writes the data register through
  \<^verbatim>\<open>f->usart\<close>. Through a null pointer the call has no defined result.
\<close>

definition write_char_USART :: "fdref \<Rightarrow> char_t \<Rightarrow> xio \<Rightarrow> (char_t \<times> xio) option" where
  "write_char_USART f c s =
     (if usart (deref s f) = NULL then None
      else Some (c, assign f (\<lambda>d. d\<lparr>usart_DATA := usart_DATA d @ [c]\<rparr>) s))"

definition echo_to_console :: "char_t \<Rightarrow> xio \<Rightarrow> xio option" where
  "echo_to_console c s = map_option snd (write_char_USART Ref_fd_usb c s)"

function read_char_USART :: "macros \<Rightarrow> fdref \<Rightarrow> xio \<Rightarrow> (char_t \<times> xio) option" where
  "read_char_USART K f s =
     (if rx_buf_head (deref s f) = rx_buf_tail (deref s f) then
        (if \<not> BLOCKING_ENABLED (flags (deref s f)) then Some (- 1, s\<lparr>errno := EAGAIN\<rparr>)
         else (case sleep_mode K s of
                 None \<Rightarrow> None
               | Some s' \<Rightarrow> read_char_USART K f s'))
      else
        (let s1 = assign f (\<lambda>d. d\<lparr>rx_buf_tail := rx_buf_tail d - 1\<rparr>) s;
             s2 = (if rx_buf_tail (deref s1 f) = 0
                   then s1\<lparr>fd_usb := (fd_usb s1)\<lparr>rx_buf_tail :=
                                                    word_of_int (USART_RX_BUFSIZE K - 1)\<rparr>\<rparr>
                   else s1);
             c = rx_buf (deref s2 f) (unat (rx_buf_tail (deref s2 f)))
         in if ECHO_ENABLED (flags (deref s2 f))
            then (case echo_to_console c s2 of
                    None \<Rightarrow> None
                  | Some s3 \<Rightarrow> Some (c, s3))
            else Some (c, s2)))"
  by pat_completeness auto
termination
proof (relation "measure (\<lambda>(K, f, s). length (irqs s))")
  show "wf (measure (\<lambda>(K, f, s). length (irqs s)))"
    by simp
next
  fix K :: macros and f :: fdref and s s' :: xio
  assume "sleep_mode K s = Some s'"
  then obtain q qs where q: "irqs s = q # qs"
    and s': "run_irq K q (s\<lparr>sleeps := sleeps s + 1, irqs := qs\<rparr>) = Some s'"
    by (auto simp: sleep_mode_def split: list.splits)
  have "irqs s' = qs"
    using s'
    by (cases q) (auto simp: ISR_USB_RX_def ISR_USARTC1_RXC_def Let_def split: if_splits)
  with q show "((K, f, s'), (K, f, s)) \<in> measure (\<lambda>(K, f, s). length (irqs s))"
    by simp
qed

declare read_char_USART.simps [simp del]

subsection \<open>The read engine\<close>

text \<open>
  The three loops of \<^verbatim>\<open>_read_usb\<close>, one for each mode. Each takes the destination
  memory \<open>buf\<close>, the index \<open>i\<close> and the remaining count \<open>sz\<close>, and yields the returned
  value together with the destination memory and the module state at the return.
\<close>

lemma unat_pred_pred_less:
  fixes w :: "'a::len word"
  assumes "w \<noteq> 1"
  shows "unat (w - 2) < unat (w - 1)"
proof -
  have nz: "w - 1 \<noteq> 0"
    using assms by simp
  have "unat (w - 1 - 1) = unat (w - 1) - 1"
    using nz by (rule unat_minus_one)
  moreover have "0 < unat (w - 1)"
    using nz by (simp add: unat_gt_0)
  moreover have "w - 1 - 1 = w - 2"
    by simp
  ultimately show ?thesis
    by simp
qed

function read_usb_SIZE ::
  "macros \<Rightarrow> fdref \<Rightarrow> mem \<Rightarrow> nat \<Rightarrow> int16_t \<Rightarrow> xio \<Rightarrow> (int16_t \<times> mem \<times> xio) option" where
  "read_usb_SIZE K f buf i sz s =
     (case read_char_USART K f s of
        None \<Rightarrow> None
      | Some (c, s1) \<Rightarrow>
          if c = - 1 then Some (- 1, buf(i := c), s1)
          else if sz - 1 = 0 then Some (word_of_nat (i + 1), buf(i := c), s1)
          else read_usb_SIZE K f (buf(i := c)) (i + 1) (sz - 1) s1)"
  by pat_completeness auto
termination
  by (relation "measure (\<lambda>(K, f, buf, i, sz, s). unat (sz - 1))")
     (auto simp: unat_pred_pred_less)

declare read_usb_SIZE.simps [simp del]

partial_function (option) read_usb_LINE ::
  "macros \<Rightarrow> fdref \<Rightarrow> mem \<Rightarrow> nat \<Rightarrow> int16_t \<Rightarrow> xio \<Rightarrow> (int16_t \<times> mem \<times> xio) option" where
  "read_usb_LINE K f buf i sz s =
     (case read_char_USART K f s of
        None \<Rightarrow> None
      | Some (c, s1) \<Rightarrow>
          if c = - 1 then Some (- 1, buf, s1)
          else if sz \<noteq> NO_LIMIT K \<and> sz - 1 = 0
            then Some (- 1, buf(i := c, i + 1 := NUL), s1\<lparr>errno := EMSGSIZE\<rparr>)
          else if c = 0x0D \<or> c = 0x0A \<or> c = 0x3B
            then Some (word_of_nat (i + 1), buf(i := c, i + 1 := NUL), s1)
          else if c = NUL then Some (word_of_nat (i + 1), buf(i := c), s1)
          else read_usb_LINE K f (buf(i := c)) (i + 1)
                 (if sz \<noteq> NO_LIMIT K then sz - 1 else sz) s1)"

partial_function (option) read_usb_STR ::
  "macros \<Rightarrow> fdref \<Rightarrow> mem \<Rightarrow> nat \<Rightarrow> int16_t \<Rightarrow> xio \<Rightarrow> (int16_t \<times> mem \<times> xio) option" where
  "read_usb_STR K f buf i sz s =
     (case read_char_USART K f s of
        None \<Rightarrow> None
      | Some (c, s1) \<Rightarrow>
          if c = - 1 then Some (- 1, buf, s1)
          else if sz \<noteq> NO_LIMIT K \<and> sz - 1 = 0
            then Some (- 1, buf(i := c, i + 1 := NUL), s1\<lparr>errno := EFBIG\<rparr>)
          else if c = NUL then Some (word_of_nat (i + 1), buf(i := c), s1)
          else read_usb_STR K f (buf(i := c)) (i + 1)
                 (if sz \<noteq> NO_LIMIT K then sz - 1 else sz) s1)"

text \<open>
  \<^verbatim>\<open>_read_usb\<close>: the checks on the request, the choice of the mode, the dispatch. The
  mode of a request that is not positive is the request cut to eight bits.
\<close>

definition read_usb ::
  "macros \<Rightarrow> fdref \<Rightarrow> mem \<Rightarrow> int16_t \<Rightarrow> xio \<Rightarrow> (int16_t \<times> mem \<times> xio) option" where
  "read_usb K f buf sz s =
     (if sz = 0 then Some (0, buf, s)
      else if rx_size_max (deref s f) <s sz then Some (- 1, buf, s\<lparr>errno := EFBIG\<rparr>)
      else if sz <s scast STR_MODE then Some (- 1, buf, s\<lparr>errno := EINVAL\<rparr>)
      else
        (let mode = (if 0 <s sz then SIZE_MODE else ucast sz);
             sz' = (if 0 <s sz then sz else rx_size_max (deref s f))
         in if mode = SIZE_MODE then read_usb_SIZE K f buf 0 sz' s
            else if mode = LINE_MODE then read_usb_LINE K f buf 0 sz' s
            else if mode = STR_MODE then read_usb_STR K f buf 0 sz' s
            else Some (- 1, buf, s\<lparr>errno := EWTF\<rparr>)))"

subsection \<open>The write engine\<close>

text \<open>
  The four loops of \<^verbatim>\<open>_write_usb\<close>. The source memory \<open>buf\<close> is read at the index
  \<open>i\<close>; in the program-memory mode the same address is read in program memory (\<open>pgm\<close>).
\<close>

function write_usb_SIZE ::
  "fdref \<Rightarrow> mem \<Rightarrow> nat \<Rightarrow> int16_t \<Rightarrow> xio \<Rightarrow> (int16_t \<times> xio) option" where
  "write_usb_SIZE f buf i sz s =
     (if sz - 1 = 0 then Some (word_of_nat i, s)
      else (case write_char_USART f (buf i) s of
              None \<Rightarrow> None
            | Some (c, s1) \<Rightarrow>
                if c = - 1 then Some (- 1, s1)
                else write_usb_SIZE f buf (i + 1) (sz - 1) s1))"
  by pat_completeness auto
termination
  by (relation "measure (\<lambda>(f, buf, i, sz, s). unat (sz - 1))")
     (auto simp: unat_pred_pred_less)

declare write_usb_SIZE.simps [simp del]

partial_function (option) write_usb_LINE ::
  "macros \<Rightarrow> fdref \<Rightarrow> mem \<Rightarrow> nat \<Rightarrow> int16_t \<Rightarrow> xio \<Rightarrow> (int16_t \<times> xio) option" where
  "write_usb_LINE K f buf i sz s =
     (if sz \<noteq> NO_LIMIT K \<and> sz - 1 = 0 then Some (- 1, s\<lparr>errno := EMSGSIZE\<rparr>)
      else if buf i = NUL then Some (word_of_nat (i + 1), s)
      else (case write_char_USART f (buf i) s of
              None \<Rightarrow> None
            | Some (c, s1) \<Rightarrow>
                if c = - 1 then Some (- 1, s1)
                else if c = 0x0D \<or> c = 0x0A \<or> c = 0x3B then Some (word_of_nat (i + 1), s1)
                else write_usb_LINE K f buf (i + 1)
                       (if sz \<noteq> NO_LIMIT K then sz - 1 else sz) s1))"

partial_function (option) write_usb_STR ::
  "macros \<Rightarrow> fdref \<Rightarrow> mem \<Rightarrow> nat \<Rightarrow> int16_t \<Rightarrow> xio \<Rightarrow> (int16_t \<times> xio) option" where
  "write_usb_STR K f buf i sz s =
     (if sz \<noteq> NO_LIMIT K \<and> sz - 1 = 0 then Some (- 1, s\<lparr>errno := EMSGSIZE\<rparr>)
      else if buf i = NUL then Some (word_of_nat (i + 1), s)
      else (case write_char_USART f (buf i) s of
              None \<Rightarrow> None
            | Some (c, s1) \<Rightarrow>
                if c = - 1 then Some (- 1, s1)
                else write_usb_STR K f buf (i + 1)
                       (if sz \<noteq> NO_LIMIT K then sz - 1 else sz) s1))"

partial_function (option) write_usb_PSTR ::
  "macros \<Rightarrow> fdref \<Rightarrow> mem \<Rightarrow> nat \<Rightarrow> int16_t \<Rightarrow> xio \<Rightarrow> (int16_t \<times> xio) option" where
  "write_usb_PSTR K f pgm i sz s =
     (if sz \<noteq> NO_LIMIT K \<and> sz - 1 = 0 then Some (- 1, s\<lparr>errno := EMSGSIZE\<rparr>)
      else if pgm i = NUL then Some (word_of_nat (i + 1), s)
      else (case write_char_USART f (pgm i) s of
              None \<Rightarrow> None
            | Some (c, s1) \<Rightarrow>
                if c = - 1 then Some (- 1, s1)
                else write_usb_PSTR K f pgm (i + 1)
                       (if sz \<noteq> NO_LIMIT K then sz - 1 else sz) s1))"

definition write_usb ::
  "macros \<Rightarrow> fdref \<Rightarrow> mem \<Rightarrow> mem \<Rightarrow> int16_t \<Rightarrow> xio \<Rightarrow> (int16_t \<times> xio) option" where
  "write_usb K f buf pgm sz s =
     (if sz = 0 then Some (0, s)
      else if rx_size_max (deref s f) <s sz then Some (- 1, s\<lparr>errno := EFBIG\<rparr>)
      else if sz <s scast PSTR_MODE then Some (- 1, s\<lparr>errno := EINVAL\<rparr>)
      else
        (let mode = (if 0 <s sz then SIZE_MODE else ucast sz);
             sz' = (if 0 <s sz then sz else rx_size_max (deref s f))
         in if mode = SIZE_MODE then write_usb_SIZE f buf 0 sz' s
            else if mode = LINE_MODE then write_usb_LINE K f buf 0 sz' s
            else if mode = STR_MODE then write_usb_STR K f buf 0 sz' s
            else if mode = PSTR_MODE then write_usb_PSTR K f pgm 0 sz' s
            else Some (- 1, s\<lparr>errno := EWTF\<rparr>)))"

subsection \<open>Open\<close>

text \<open>
  \<^verbatim>\<open>_open_USART\<close>. The stores to the registers of the USART and of its port (baud rate,
  enable bits, pin directions) and the binding of the function pointers are not part of
  the state kept here. A device number outside the table \<^verbatim>\<open>fdes\<close>, a null entry of
  \<^verbatim>\<open>fd_ptrs\<close> and an index outside the table \<^verbatim>\<open>usel\<close> have no defined result.
\<close>

definition open_USART :: "macros \<Rightarrow> uint8_t \<Rightarrow> uint32_t \<Rightarrow> xio \<Rightarrow> (int8_t \<times> xio) option" where
  "open_USART K dev control s =
     (if length fdes \<le> unat dev then None
      else
        (case fd_ptrs (fdes ! unat dev) of
           None \<Rightarrow> None
         | Some f \<Rightarrow>
             (let s1 = assign f (\<lambda>d. d\<lparr>fd := fdes ! unat dev,
                                        rx_buf_head := 1, rx_buf_tail := 1,
                                        tx_buf_head := 1, tx_buf_tail := 1,
                                        rx_size_max := word_of_int (READ_BUFFER_SIZE K - 1),
                                        tx_size_max := NO_LIMIT K\<rparr>) s
              in if control AND (IO_RDONLY OR IO_WRONLY) = (IO_RDONLY OR IO_WRONLY)
                 then Some (- 1, s1\<lparr>errno := EINVAL\<rparr>)
                 else
                   (let fl0 = IO_FLAG_DEFAULT_gm;
                        fl1 = (if control AND IO_RDONLY \<noteq> 0 then fl0 AND NOT IO_FLAG_WR_bm
                               else if control \<noteq> 0 \<and> IO_RDONLY \<noteq> 0
                                 then fl0 AND NOT IO_FLAG_RD_bm
                               else fl0);
                        fl2 = (if control AND IO_NOECHO \<noteq> 0
                               then fl1 AND NOT IO_FLAG_ECHO_CHAR_bm else fl1);
                        fl3 = (if control AND IO_RDNONBLOCK \<noteq> 0
                               then fl2 AND NOT IO_FLAG_RD_BLOCK_bm else fl2);
                        b = (if ucast (control AND IO_BAUD_gm) = IO_BAUD_UNSPECIFIED
                             then IO_BAUD_DEFAULT else ucast (control AND IO_BAUD_gm));
                        u = dev - DEV_USARTC0
                    in if length usel \<le> unat u then None
                       else
                         (let s2 = assign f (\<lambda>d. d\<lparr>flags := fl3, usart := usel ! unat u,
                                                    baud := b\<rparr>) s1
                          in Some (fd (deref s2 f), s2))))))"

text \<open>
  \<^verbatim>\<open>_open_usb\<close>. The result of \<^verbatim>\<open>_open_USART\<close> is stored in a \<^verbatim>\<open>uint8_t\<close> before it is
  compared with -1, so the comparison is between a value from 0 to 255 and -1.
\<close>

definition open_usb :: "macros \<Rightarrow> uint8_t \<Rightarrow> uint32_t \<Rightarrow> xio \<Rightarrow> (int8_t \<times> xio) option" where
  "open_usb K dev control s =
     (case open_USART K DEV_USARTC0 control s of
        None \<Rightarrow> None
      | Some (r, s1) \<Rightarrow>
          if uint r = - 1 then Some (- 1, s1)
          else (case fd_ptrs r of
                  None \<Rightarrow> None
                | Some f \<Rightarrow> Some (fd (deref s1 f), s1)))"

definition xio_open :: "macros \<Rightarrow> uint8_t \<Rightarrow> uint32_t \<Rightarrow> xio \<Rightarrow> (int8_t \<times> xio) option" where
  "xio_open K dev control s =
     (if dev = DEV_USARTC0 then Some (- 1, s\<lparr>errno := ENODEV\<rparr>)
      else if dev = DEV_USARTC1 then Some (- 1, s\<lparr>errno := ENODEV\<rparr>)
      else if dev = DEV_USB then open_usb K dev control s
      else Some (- 1, s\<lparr>errno := ENODEV\<rparr>))"

subsection \<open>Dispatch\<close>

definition xio_read ::
  "macros \<Rightarrow> uint8_t \<Rightarrow> mem \<Rightarrow> int16_t \<Rightarrow> xio \<Rightarrow> (int16_t \<times> mem \<times> xio) option" where
  "xio_read K h buf sz s =
     (if h = FD_USB then read_usb K Ref_fd_usb buf sz s
      else Some (- 1, buf, s\<lparr>errno := EBADF\<rparr>))"

definition xio_write ::
  "macros \<Rightarrow> uint8_t \<Rightarrow> mem \<Rightarrow> mem \<Rightarrow> int16_t \<Rightarrow> xio \<Rightarrow> (int16_t \<times> xio) option" where
  "xio_write K h buf pgm sz s =
     (if h = FD_USB
      then (case fd_ptrs h of None \<Rightarrow> None | Some f \<Rightarrow> write_usb K f buf pgm sz s)
      else Some (- 1, s\<lparr>errno := EBADF\<rparr>))"

definition xio_getc :: "macros \<Rightarrow> uint8_t \<Rightarrow> xio \<Rightarrow> (char_t \<times> xio) option" where
  "xio_getc K h s =
     (if h = FD_USB
      then (case fd_ptrs h of None \<Rightarrow> None | Some f \<Rightarrow> read_char_USART K f s)
      else Some (ERR_EOF K, s\<lparr>errno := EBADF\<rparr>))"

definition xio_putc :: "macros \<Rightarrow> uint8_t \<Rightarrow> char_t \<Rightarrow> xio \<Rightarrow> (char_t \<times> xio) option" where
  "xio_putc K h c s =
     (if h = FD_USB
      then (case fd_ptrs h of None \<Rightarrow> None | Some f \<Rightarrow> write_char_USART f c s)
      else Some (ERR_EOF K, s\<lparr>errno := EBADF\<rparr>))"

subsection \<open>Close\<close>

definition xio_close :: "uint8_t \<Rightarrow> xio \<Rightarrow> int8_t \<times> xio" where
  "xio_close fd_arg s = (0, s)"

subsection \<open>States and configurations used at concrete inputs\<close>

text \<open>
  The control blocks are static, so they are zero when the program starts; \<^verbatim>\<open>xio_init\<close>
  clears the error number. \<open>power_on qs\<close> is the state after \<^verbatim>\<open>xio_init\<close> when the
  receive interrupts \<open>qs\<close> are still to come.
\<close>

definition zero_mem :: mem where
  "zero_mem = (\<lambda>k. 0)"

definition fdUSART_zero :: fdUSART where
  "fdUSART_zero =
     \<lparr>fd = 0, baud = 0, flags = 0, rx_buf_tail = 0, rx_buf_head = 0, tx_buf_tail = 0,
      tx_buf_head = 0, rx_buf = zero_mem, rx_size_max = 0, tx_size_max = 0, usart = NULL,
      usart_DATA = []\<rparr>"

definition power_on :: "irq list \<Rightarrow> xio" where
  "power_on qs =
     \<lparr>errno = E_NONE, fd_usb = fdUSART_zero, fd_rs485 = fdUSART_zero, sleeps = 0, irqs = qs\<rparr>"

text \<open>
  Modelled from the spec: the header of build b119, which defines \<^verbatim>\<open>USART_RX_BUFSIZE\<close>,
  \<^verbatim>\<open>READ_BUFFER_SIZE\<close>, \<^verbatim>\<open>NO_LIMIT\<close> and \<^verbatim>\<open>ERR_EOF\<close>, is missing. The receive buffer has
  the typical capacity 32 of the specification (the value of \<^verbatim>\<open>RX_BUFSIZE\<close> in
  \<^verbatim>\<open>IOsystem_b009/xmega_io.h\<close>) and the default read limit is taken from the same size;
  "no limit" and the end-of-file character are -1.
\<close>

definition typical :: macros where
  "typical = \<lparr>USART_RX_BUFSIZE = 32, READ_BUFFER_SIZE = 32, NO_LIMIT = - 1, ERR_EOF = - 1\<rparr>"

text \<open>
  The states that \<^verbatim>\<open>xio_open\<close> reaches from power-on for the USB device: with the control
  word 0 (all defaults), and with \<^verbatim>\<open>IO_RDNONBLOCK\<close>.
\<close>

definition usb_opened :: "macros \<Rightarrow> irq list \<Rightarrow> xio" where
  "usb_opened K qs =
     \<lparr>errno = E_NONE,
      fd_usb = \<lparr>fd = 1, baud = 5, flags = 0x17, rx_buf_tail = 1, rx_buf_head = 1,
                tx_buf_tail = 1, tx_buf_head = 1, rx_buf = zero_mem,
                rx_size_max = word_of_int (READ_BUFFER_SIZE K - 1),
                tx_size_max = NO_LIMIT K, usart = USARTC0, usart_DATA = []\<rparr>,
      fd_rs485 = fdUSART_zero, sleeps = 0, irqs = qs\<rparr>"

definition usb_nonblocking :: "macros \<Rightarrow> irq list \<Rightarrow> xio" where
  "usb_nonblocking K qs =
     \<lparr>errno = E_NONE,
      fd_usb = \<lparr>fd = 1, baud = 5, flags = 0x12, rx_buf_tail = 1, rx_buf_head = 1,
                tx_buf_tail = 1, tx_buf_head = 1, rx_buf = zero_mem,
                rx_size_max = word_of_int (READ_BUFFER_SIZE K - 1),
                tx_size_max = NO_LIMIT K, usart = USARTC0, usart_DATA = []\<rparr>,
      fd_rs485 = fdUSART_zero, sleeps = 0, irqs = qs\<rparr>"

text \<open>
  Both rings full: the indices that thirty bytes received after the open leave behind
  (head 2, tail 1) when the capacity is 32. The other fields are those of power-on; a
  handler that finds its buffer full uses none of them.
\<close>

definition full_rings :: xio where
  "full_rings =
     \<lparr>errno = E_NONE,
      fd_usb = fdUSART_zero\<lparr>rx_buf_head := 2, rx_buf_tail := 1\<rparr>,
      fd_rs485 = fdUSART_zero\<lparr>rx_buf_head := 2, rx_buf_tail := 1\<rparr>,
      sleeps = 0, irqs = []\<rparr>"


text \<open>The handler of the USB receive interrupt run once for each byte of a list.\<close>

fun usb_receive :: "macros \<Rightarrow> char_t list \<Rightarrow> xio \<Rightarrow> xio" where
  "usb_receive K [] s = s"
| "usb_receive K (b # bs) s = usb_receive K bs (ISR_USB_RX K b s)"

subsection \<open>The ring-buffer predicates of the specification\<close>

text \<open>
  An index is in range when it lies in \<open>[1, C - 1]\<close>, \<open>C\<close> being \<^verbatim>\<open>USART_RX_BUFSIZE\<close>.
  The buffer is empty when head and tail are equal, and full when the head, advanced by
  one step (decrement, and wrap from 0 to \<open>C - 1\<close>), would equal the tail.
\<close>

definition index_ok :: "macros \<Rightarrow> uint8_t \<Rightarrow> bool" where
  "index_ok K x = (1 \<le> uint x \<and> uint x \<le> USART_RX_BUFSIZE K - 1)"

definition ring_inv :: "macros \<Rightarrow> fdUSART \<Rightarrow> bool" where
  "ring_inv K d = (index_ok K (rx_buf_head d) \<and> index_ok K (rx_buf_tail d))"

definition advance :: "macros \<Rightarrow> uint8_t \<Rightarrow> uint8_t" where
  "advance K x = (if x - 1 = 0 then word_of_int (USART_RX_BUFSIZE K - 1) else x - 1)"

definition rx_empty :: "fdUSART \<Rightarrow> bool" where
  "rx_empty d = (rx_buf_head d = rx_buf_tail d)"

definition rx_full :: "macros \<Rightarrow> fdUSART \<Rightarrow> bool" where
  "rx_full K d = (advance K (rx_buf_head d) = rx_buf_tail d)"

subsection \<open>The abstract queue of a ring buffer\<close>

text \<open>
  The bytes a ring buffer holds, oldest first: the cells met when the tail is advanced
  step by step until it reaches the head. \<open>ring_dist K t h\<close> is the number of steps from
  the tail \<open>t\<close> to the head \<open>h\<close>.
\<close>

fun ring_walk :: "macros \<Rightarrow> mem \<Rightarrow> uint8_t \<Rightarrow> nat \<Rightarrow> char_t list" where
  "ring_walk K m t 0 = []"
| "ring_walk K m t (Suc n) = m (unat (advance K t)) # ring_walk K m (advance K t) n"

definition ring_dist :: "macros \<Rightarrow> uint8_t \<Rightarrow> uint8_t \<Rightarrow> nat" where
  "ring_dist K t h =
     (if unat h \<le> unat t then unat t - unat h
      else unat t + nat (USART_RX_BUFSIZE K - 1) - unat h)"

definition ring_contents :: "macros \<Rightarrow> fdUSART \<Rightarrow> char_t list" where
  "ring_contents K d =
     ring_walk K (rx_buf d) (rx_buf_tail d) (ring_dist K (rx_buf_tail d) (rx_buf_head d))"

text \<open>
  A run of the USB ring buffer: each \<open>Push b\<close> is the receive interrupt with the byte
  \<open>b\<close>, taken between two calls of the foreground, each \<open>Pop\<close> a call of \<^verbatim>\<open>xio_getc\<close>
  with the USB handle. A pop that sleeps is woken by the pending interrupts, and those of
  the USB receiver push their bytes before the pop takes one: \<open>woken_by s s'\<close> is the
  list of interrupts taken between the state \<open>s\<close> at the call and the state \<open>s'\<close> at the
  return, \<open>usb_bytes\<close> the bytes of the USB interrupts among them.

  The run yields the ring operations in the order they took place, the bytes the pops
  delivered, in order, and the state at the end; a pop delivers its result unless it is
  the would-block return (buffer empty, blocking disabled). A pop that does not return,
  or an interrupt without a defined result, ends the run without a result.
\<close>

datatype ring_op = Push char_t | Pop


fun usb_bytes :: "irq list \<Rightarrow> char_t list" where
  "usb_bytes [] = []"
| "usb_bytes (USARTC0_RXC_vect b # qs) = b # usb_bytes qs"
| "usb_bytes (USARTC1_RXC_vect b # qs) = usb_bytes qs"

definition woken_by :: "xio \<Rightarrow> xio \<Rightarrow> irq list" where
  "woken_by s s' = take (length (irqs s) - length (irqs s')) (irqs s)"

fun usb_run ::
  "macros \<Rightarrow> ring_op list \<Rightarrow> xio \<Rightarrow> (ring_op list \<times> char_t list \<times> xio) option" where
  "usb_run K [] s = Some ([], [], s)"
| "usb_run K (Push b # ops) s =
     (case run_irq K (USARTC0_RXC_vect b) s of
        None \<Rightarrow> None
      | Some s1 \<Rightarrow>
          (case usb_run K ops s1 of
             None \<Rightarrow> None
           | Some (evs, cs, s') \<Rightarrow> Some (Push b # evs, cs, s')))"
| "usb_run K (Pop # ops) s =
     (case xio_getc K FD_USB s of
        None \<Rightarrow> None
      | Some (c, s1) \<Rightarrow>
          (case usb_run K ops s1 of
             None \<Rightarrow> None
           | Some (evs, cs, s') \<Rightarrow>
               Some (map Push (usb_bytes (woken_by s s1)) @ Pop # evs,
                     if rx_empty (fd_usb s) \<and> \<not> BLOCKING_ENABLED (flags (fd_usb s))
                     then cs else c # cs,
                     s')))"


subsection \<open>The bytes of an exact-count read\<close>

text \<open>
  \<open>read_chars K f n s\<close> is the outcome of \<open>n\<close> successive calls of \<^verbatim>\<open>_read_char_USART\<close>:
  the bytes returned, in order, and the state after the last call. \<open>store_bytes buf i cs\<close>
  is the memory \<open>buf\<close> with the bytes \<open>cs\<close> stored from the index \<open>i\<close> upwards.
\<close>

fun read_chars :: "macros \<Rightarrow> fdref \<Rightarrow> nat \<Rightarrow> xio \<Rightarrow> (char_t list \<times> xio) option" where
  "read_chars K f 0 s = Some ([], s)"
| "read_chars K f (Suc n) s =
     (case read_char_USART K f s of
        None \<Rightarrow> None
      | Some (c, s1) \<Rightarrow>
          (case read_chars K f n s1 of
             None \<Rightarrow> None
           | Some (cs, s2) \<Rightarrow> Some (c # cs, s2)))"

fun store_bytes :: "mem \<Rightarrow> nat \<Rightarrow> char_t list \<Rightarrow> mem" where
  "store_bytes buf i [] = buf"
| "store_bytes buf i (c # cs) = store_bytes (buf(i := c)) (i + 1) cs"

section \<open>Supporting facts\<close>

subsection \<open>Evaluation at concrete inputs\<close>

lemmas xio_consts =
  FD_USB_def FD_RS485_def DEV_USB_def DEV_RS485_def DEV_USARTC0_def DEV_USARTC1_def
  fdes_def fd_ptrs_def
  IO_RDONLY_def IO_WRONLY_def IO_NOECHO_def IO_RDNONBLOCK_def IO_BAUD_gm_def
  IO_FLAG_DEFAULT_gm_def IO_FLAG_RD_bm_def IO_FLAG_WR_bm_def IO_FLAG_RD_BLOCK_bm_def
  IO_FLAG_ECHO_CHAR_bm_def IO_BAUD_UNSPECIFIED_def IO_BAUD_DEFAULT_def IO_BAUD_115200_def
  SIZE_MODE_def LINE_MODE_def STR_MODE_def PSTR_MODE_def NUL_def
  READ_ENABLED_def WRITE_ENABLED_def BLOCKING_ENABLED_def ECHO_ENABLED_def

lemma ucast_minus_one_16_8: "(ucast (- 1 :: 16 word) :: 8 word) = - 1"
  by (simp add: unsigned_minus_1_eq_mask mask_eq_exp_minus_1)

text \<open>The named states are the ones the open functions reach from power-on.\<close>

lemma xio_open_default: "xio_open K DEV_USB 0 (power_on qs) = Some (1, usb_opened K qs)"
  by (simp add: xio_open_def open_usb_def open_USART_def xio_consts power_on_def
      fdUSART_zero_def usb_opened_def usel_def Let_def)

lemma xio_open_nonblocking:
  "xio_open K DEV_USB IO_RDNONBLOCK (power_on qs) = Some (1, usb_nonblocking K qs)"
  by (simp add: xio_open_def open_usb_def open_USART_def xio_consts power_on_def
      fdUSART_zero_def usb_nonblocking_def usel_def Let_def)

text \<open>
  \<^verbatim>\<open>xio_open\<close> is the only way into \<^verbatim>\<open>_open_USART\<close>, and it refuses the RS-485 device
  as it refuses every device but USB.
\<close>

lemma xio_open_rs485_refused:
  "xio_open K DEV_RS485 control s = Some (- 1, s\<lparr>errno := ENODEV\<rparr>)"
  by (simp add: xio_open_def xio_consts)


lemma xio_read_usb: "xio_read K FD_USB buf sz s = read_usb K Ref_fd_usb buf sz s"
  by (simp add: xio_read_def)

subsection \<open>The interrupt handlers in terms of the index step\<close>

lemma uint_word_of_int_small:
  "0 \<le> k \<Longrightarrow> k \<le> 255 \<Longrightarrow> uint (word_of_int k :: 8 word) = k"
  by (simp add: uint_word_of_int take_bit_int_eq_self)

lemma ISR_USB_RX_advance:
  "ISR_USB_RX K b s =
     (if advance K (rx_buf_head (fd_usb s)) \<noteq> rx_buf_tail (fd_usb s)
      then s\<lparr>fd_usb := (fd_usb s)\<lparr>rx_buf_head := advance K (rx_buf_head (fd_usb s)),
             rx_buf := (rx_buf (fd_usb s))(unat (advance K (rx_buf_head (fd_usb s))) := b)\<rparr>\<rparr>
      else s\<lparr>fd_usb := (fd_usb s)\<lparr>rx_buf_head :=
             (if USART_RX_BUFSIZE K - 1 < uint (advance K (rx_buf_head (fd_usb s)) + 1) then 1
              else advance K (rx_buf_head (fd_usb s)) + 1)\<rparr>\<rparr>)"
  by (simp add: ISR_USB_RX_def advance_def Let_def)

lemma ISR_USARTC1_RXC_advance:
  "ISR_USARTC1_RXC K b s =
     (if advance K (rx_buf_head (fd_rs485 s)) \<noteq> rx_buf_tail (fd_rs485 s)
      then s\<lparr>fd_rs485 := (fd_rs485 s)\<lparr>rx_buf_head := advance K (rx_buf_head (fd_rs485 s)),
             rx_buf :=
               (rx_buf (fd_rs485 s))(unat (advance K (rx_buf_head (fd_rs485 s))) := b)\<rparr>\<rparr>
      else s\<lparr>fd_rs485 := (fd_rs485 s)\<lparr>rx_buf_head :=
             (if USART_RX_BUFSIZE K - 1 < uint (advance K (rx_buf_head (fd_rs485 s)) + 1)
              then 1
              else advance K (rx_buf_head (fd_rs485 s)) + 1)\<rparr>\<rparr>)"
  by (simp add: ISR_USARTC1_RXC_def advance_def Let_def)

text \<open>
  The buffer-full path puts the head back where it was. The capacity must fit the index
  type: with 256 the increment of 255 wraps to 0 and the head is left at 0.
\<close>

lemma restore_head:
  assumes C: "USART_RX_BUFSIZE K \<le> 255" and ok: "index_ok K h"
  shows "(if USART_RX_BUFSIZE K - 1 < uint (advance K h + 1) then 1 else advance K h + 1) = h"
proof (cases "h - 1 = 0")
  case True
  then have h1: "h = 1" by simp
  with ok have lo: "2 \<le> USART_RX_BUFSIZE K"
    by (simp add: index_ok_def)
  have "advance K h + 1 = word_of_int (USART_RX_BUFSIZE K)"
    using True by (simp add: advance_def)
  moreover have "uint (word_of_int (USART_RX_BUFSIZE K) :: 8 word) = USART_RX_BUFSIZE K"
    using C lo by (simp add: uint_word_of_int_small)
  ultimately show ?thesis
    using h1 by simp
next
  case False
  then have "advance K h + 1 = h"
    by (simp add: advance_def)
  moreover have "\<not> USART_RX_BUFSIZE K - 1 < uint h"
    using ok by (simp add: index_ok_def)
  ultimately show ?thesis
    by simp
qed

lemma ISR_USB_RX_full:
  assumes "USART_RX_BUFSIZE K \<le> 255" and "index_ok K (rx_buf_head (fd_usb s))"
    and "rx_full K (fd_usb s)"
  shows "ISR_USB_RX K b s = s"
proof -
  have "ISR_USB_RX K b s = s\<lparr>fd_usb := (fd_usb s)\<lparr>rx_buf_head :=
          (if USART_RX_BUFSIZE K - 1 < uint (advance K (rx_buf_head (fd_usb s)) + 1) then 1
           else advance K (rx_buf_head (fd_usb s)) + 1)\<rparr>\<rparr>"
    using assms(3) by (simp only: ISR_USB_RX_advance rx_full_def) simp
  also have "\<dots> = s"
    by (simp only: restore_head [OF assms(1,2)]) simp
  finally show ?thesis .
qed

lemma ISR_USARTC1_RXC_full:
  assumes "USART_RX_BUFSIZE K \<le> 255" and "index_ok K (rx_buf_head (fd_rs485 s))"
    and "rx_full K (fd_rs485 s)"
  shows "ISR_USARTC1_RXC K b s = s"
proof -
  have "ISR_USARTC1_RXC K b s = s\<lparr>fd_rs485 := (fd_rs485 s)\<lparr>rx_buf_head :=
          (if USART_RX_BUFSIZE K - 1 < uint (advance K (rx_buf_head (fd_rs485 s)) + 1) then 1
           else advance K (rx_buf_head (fd_rs485 s)) + 1)\<rparr>\<rparr>"
    using assms(3) by (simp only: ISR_USARTC1_RXC_advance rx_full_def) simp
  also have "\<dots> = s"
    by (simp only: restore_head [OF assms(1,2)]) simp
  finally show ?thesis .
qed

lemma ISR_USB_RX_capacity_256:
  "rx_buf_head (fd_usb (ISR_USB_RX (typical\<lparr>USART_RX_BUFSIZE := 256\<rparr>) b
     (full_rings\<lparr>fd_usb := (fd_usb full_rings)\<lparr>rx_buf_head := 1, rx_buf_tail := 255\<rparr>\<rparr>))) = 0"
  by (simp add: ISR_USB_RX_def typical_def full_rings_def fdUSART_zero_def Let_def)

subsection \<open>The requests of the read engine\<close>

lemma positive_request:
  fixes sz :: int16_t
  assumes "0 <s sz"
  shows "sz \<noteq> 0" and "\<not> sz <s - 2" and "sz \<noteq> - 1" and "unat (sz - 1) + 1 = unat sz"
proof -
  show nz: "sz \<noteq> 0"
    using assms by auto
  show "\<not> sz <s - 2"
    using assms by (simp add: word_sless_alt)
  show "sz \<noteq> - 1"
    using assms by (auto simp: word_sless_alt)
  show "unat (sz - 1) + 1 = unat sz"
    using nz by (simp add: unat_minus_one unat_gt_0)
qed

lemma negative_request:
  fixes sz :: int16_t
  assumes "\<not> 0 <s sz" and "sz \<noteq> 0" and "\<not> sz <s - 2"
  shows "sz = - 1 \<or> sz = - 2"
proof -
  have "sint sz \<le> 0" "- 2 \<le> sint sz"
    using assms by (simp_all add: word_sless_alt)
  moreover have "sint sz \<noteq> 0"
    using assms(2) by (simp add: signed_eq_0_iff)
  ultimately have "sint sz = - 1 \<or> sint sz = - 2"
    by arith
  then have "sint sz = sint (- 1 :: int16_t) \<or> sint sz = sint (- 2 :: int16_t)"
    by simp
  then show ?thesis
    by (simp only: word_eq_iff_signed [symmetric])
qed

lemma read_usb_exact_count:
  assumes "0 <s sz" and "\<not> rx_size_max (deref s f) <s sz"
  shows "read_usb K f buf sz s = read_usb_SIZE K f buf 0 sz s"
  using assms positive_request(1,2) [OF assms(1)]
  by (simp add: read_usb_def STR_MODE_def SIZE_MODE_def)

lemma read_char_USART_would_block:
  assumes "rx_empty (deref s f)" and "\<not> BLOCKING_ENABLED (flags (deref s f))"
  shows "read_char_USART K f s = Some (- 1, s\<lparr>errno := EAGAIN\<rparr>)"
  using assms by (simp add: read_char_USART.simps rx_empty_def)

subsection \<open>The exact-count read loop\<close>

text \<open>
  One turn of the loop: when the single-character read returns -1, the loop has stored
  that byte at the current index and returns -1.
\<close>

lemma read_usb_SIZE_abort:
  "read_char_USART K f s = Some (- 1, s1) \<Longrightarrow>
   read_usb_SIZE K f buf i sz s = Some (- 1, buf(i := - 1), s1)"
  by (simp add: read_usb_SIZE.simps)

lemma unat_pred_Suc:
  fixes w :: "'a::len word"
  shows "w \<noteq> 1 \<Longrightarrow> Suc (unat (w - 2)) = unat (w - 1)"
  using unat_pred_pred_less [of w] unat_minus_one [of "w - 1"] by simp

text \<open>
  The whole loop: when the single-character read has returned the bytes \<open>cs\<close>, none of
  them 0xFF and fewer than the count asks for, and returns -1 at the next call, the loop
  has stored \<open>cs\<close> from the index \<open>i\<close> on and 0xFF in the cell after them, has touched
  no other cell, and returns -1 with the state of that last call.
\<close>

lemma read_usb_SIZE_stores:
  "read_chars K f (length cs) s = Some (cs, s1) \<Longrightarrow> - 1 \<notin> set cs \<Longrightarrow>
   length cs \<le> unat (sz - 1) \<Longrightarrow> read_char_USART K f s1 = Some (- 1, s2) \<Longrightarrow>
   read_usb_SIZE K f buf i sz s =
     Some (- 1, (store_bytes buf i cs)(i + length cs := - 1), s2)"
proof (induction cs arbitrary: s buf i sz)
  case Nil
  then have "read_char_USART K f s = Some (- 1, s2)"
    by simp
  then have "read_usb_SIZE K f buf i sz s = Some (- 1, buf(i := - 1), s2)"
    by (rule read_usb_SIZE_abort)
  moreover have "(store_bytes buf i [])(i + length ([] :: char_t list) := - 1) = buf(i := - 1)"
    by simp
  ultimately show ?case
    by (simp only:)
next
  case (Cons c cs)
  from Cons.prems(1) obtain s' where rc: "read_char_USART K f s = Some (c, s')"
    and rest: "read_chars K f (length cs) s' = Some (cs, s1)"
    by (auto split: option.splits)
  have c: "c \<noteq> - 1" and cs: "- 1 \<notin> set cs"
    using Cons.prems(2) by auto
  have more: "sz - 1 \<noteq> 0"
    using Cons.prems(3) by auto
  then have step: "Suc (unat (sz - 1 - 1)) = unat (sz - 1)"
    using unat_pred_Suc [of sz] by simp
  have len: "length cs \<le> unat (sz - 1 - 1)"
    using Cons.prems(3) step by simp
  have "read_usb_SIZE K f buf i sz s = read_usb_SIZE K f (buf(i := c)) (i + 1) (sz - 1) s'"
    using rc c more by (subst read_usb_SIZE.simps) simp
  also have "\<dots> =
      Some (- 1, (store_bytes (buf(i := c)) (i + 1) cs)(i + 1 + length cs := - 1), s2)"
    using rest cs len Cons.prems(4) by (rule Cons.IH)
  finally show ?case
    by simp (simp add: fun_eq_iff)
qed

subsection \<open>Index arithmetic of the ring buffer\<close>

text \<open>
  From here on the capacity is at most 255, so that \<open>C - 1\<close> and \<open>C\<close> fit the 8-bit
  indices. One step takes an index of \<open>[1, C - 1]\<close> to its predecessor and 1 to \<open>C - 1\<close>;
  it stays in range and is injective there.
\<close>

lemma index_ok_unat:
  "index_ok K x \<longleftrightarrow> 1 \<le> unat x \<and> unat x \<le> nat (USART_RX_BUFSIZE K - 1)"
proof -
  have "uint x = int (unat x)"
    by simp
  then show ?thesis
    unfolding index_ok_def by (simp only:) linarith
qed

lemma unat_top:
  assumes "1 \<le> USART_RX_BUFSIZE K - 1" and "USART_RX_BUFSIZE K \<le> 255"
  shows "unat (word_of_int (USART_RX_BUFSIZE K - 1) :: 8 word) = nat (USART_RX_BUFSIZE K - 1)"
proof -
  have "uint (word_of_int (USART_RX_BUFSIZE K - 1) :: 8 word) = USART_RX_BUFSIZE K - 1"
    by (rule uint_word_of_int_small) (use assms in linarith)+
  then show ?thesis
    by (simp only: unat_eq_nat_uint)
qed

lemma unat_advance:
  assumes ok: "index_ok K x" and C: "USART_RX_BUFSIZE K \<le> 255"
  shows "unat (advance K x) = (if unat x = 1 then nat (USART_RX_BUFSIZE K - 1) else unat x - 1)"
proof -
  from ok have x: "1 \<le> unat x" "unat x \<le> nat (USART_RX_BUFSIZE K - 1)"
    by (simp_all add: index_ok_unat)
  then have lo: "1 \<le> USART_RX_BUFSIZE K - 1"
    by linarith
  have nz: "x \<noteq> 0"
    using x(1) by auto
  have pred: "unat (x - 1) = unat x - 1"
    using nz by (rule unat_minus_one)
  show ?thesis
  proof (cases "x - 1 = 0")
    case True
    then have "unat x = 1"
      using pred x(1) by simp
    with True show ?thesis
      by (simp add: advance_def unat_top [OF lo C] del: of_int_diff)
  next
    case False
    then have "unat x \<noteq> 1"
      using pred by (metis diff_self_eq_0 unat_eq_zero)
    with False pred show ?thesis
      by (simp add: advance_def)
  qed
qed

lemma index_ok_advance:
  assumes "index_ok K x" and "USART_RX_BUFSIZE K \<le> 255"
  shows "index_ok K (advance K x)"
  using assms unat_advance [OF assms] by (auto simp: index_ok_unat)

lemma advance_inj:
  assumes "index_ok K x" and "index_ok K y" and "USART_RX_BUFSIZE K \<le> 255"
    and "advance K x = advance K y"
  shows "x = y"
proof -
  have "unat (advance K x) = unat (advance K y)"
    using assms(4) by simp
  then have "unat x = unat y"
    using assms(1,2) unat_advance [OF assms(1,3)] unat_advance [OF assms(2,3)]
    by (auto simp: index_ok_unat split: if_splits)
  then show ?thesis
    by (simp add: word_unat_eq_iff)
qed

lemma ring_dist_zero:
  assumes "index_ok K t" and "index_ok K h"
  shows "ring_dist K t h = 0 \<longleftrightarrow> t = h"
  using assms by (auto simp: ring_dist_def index_ok_unat word_unat_eq_iff)

lemma ring_dist_pop:
  assumes "index_ok K t" and "index_ok K h" and "USART_RX_BUFSIZE K \<le> 255" and "t \<noteq> h"
  shows "ring_dist K t h = Suc (ring_dist K (advance K t) h)"
  using assms unat_advance [OF assms(1,3)]
  by (auto simp: ring_dist_def index_ok_unat word_unat_eq_iff)

lemma ring_dist_push:
  assumes "index_ok K t" and "index_ok K h" and "USART_RX_BUFSIZE K \<le> 255"
    and "advance K h \<noteq> t"
  shows "ring_dist K t (advance K h) = Suc (ring_dist K t h)"
  using assms unat_advance [OF assms(2,3)]
  by (auto simp: ring_dist_def index_ok_unat word_unat_eq_iff)

lemma ring_dist_full:
  assumes "index_ok K t" and "index_ok K h" and "USART_RX_BUFSIZE K \<le> 255"
  shows "advance K h = t \<longleftrightarrow> ring_dist K t h = nat (USART_RX_BUFSIZE K - 2)"
  using assms unat_advance [OF assms(2,3)]
  by (auto simp: ring_dist_def index_ok_unat word_unat_eq_iff)

lemma ring_dist_bound:
  assumes "index_ok K t" and "index_ok K h"
  shows "ring_dist K t h \<le> nat (USART_RX_BUFSIZE K - 2)"
  using assms by (auto simp: ring_dist_def index_ok_unat)


subsection \<open>Push and pop on the USB ring buffer\<close>

text \<open>
  The abstraction function \<open>ring_contents\<close> turns the USB ring buffer into a queue: when
  the buffer is not full the interrupt appends its byte, when it is full the interrupt
  changes nothing, and a pop on a non-empty buffer returns and removes the first byte.
  Empty and full are the queue lengths 0 and \<open>C - 2\<close>.
\<close>

lemma length_ring_walk: "length (ring_walk K m t n) = n"
  by (induction n arbitrary: t) simp_all

lemma ring_walk_push:
  assumes C: "USART_RX_BUFSIZE K \<le> 255" and h: "index_ok K h"
  shows "index_ok K t \<Longrightarrow> ring_dist K t h = n \<Longrightarrow> advance K h \<noteq> t \<Longrightarrow>
         ring_walk K (m(unat (advance K h) := b)) t (Suc n) = ring_walk K m t n @ [b]"
proof (induction n arbitrary: t)
  case 0
  then have "t = h"
    using h by (simp add: ring_dist_zero)
  then show ?case
    by simp
next
  case (Suc k)
  have ne: "t \<noteq> h"
    using Suc.prems(1,2) h by (auto simp: ring_dist_zero [symmetric])
  have t': "index_ok K (advance K t)"
    using Suc.prems(1) C by (rule index_ok_advance)
  have d: "ring_dist K (advance K t) h = k"
    using ring_dist_pop [OF Suc.prems(1) h C ne] Suc.prems(2) by simp
  have apart: "advance K h \<noteq> advance K t"
    using advance_inj [OF h Suc.prems(1) C] ne by auto
  then have cell: "unat (advance K t) \<noteq> unat (advance K h)"
    by (simp add: word_unat_eq_iff)
  have ih: "ring_walk K (m(unat (advance K h) := b)) (advance K t) (Suc k) =
        ring_walk K m (advance K t) k @ [b]"
    using t' d apart by (rule Suc.IH)
  have "ring_walk K (m(unat (advance K h) := b)) t (Suc (Suc k)) =
        (m(unat (advance K h) := b)) (unat (advance K t))
          # ring_walk K (m(unat (advance K h) := b)) (advance K t) (Suc k)"
    by (rule ring_walk.simps(2))
  also have "\<dots> = m (unat (advance K t)) # (ring_walk K m (advance K t) k @ [b])"
    using cell by (simp only: ih) simp
  also have "\<dots> = ring_walk K m t (Suc k) @ [b]"
    by simp
  finally show ?case .
qed

lemma ring_contents_empty:
  assumes "ring_inv K d"
  shows "ring_contents K d = [] \<longleftrightarrow> rx_empty d"
proof -
  have "ring_contents K d = [] \<longleftrightarrow> ring_dist K (rx_buf_tail d) (rx_buf_head d) = 0"
    using length_ring_walk [of K "rx_buf d" "rx_buf_tail d"
        "ring_dist K (rx_buf_tail d) (rx_buf_head d)"]
    by (auto simp: ring_contents_def)
  also have "\<dots> \<longleftrightarrow> rx_empty d"
    using assms by (auto simp: ring_dist_zero ring_inv_def rx_empty_def)
  finally show ?thesis .
qed

lemma ring_contents_full:
  assumes "ring_inv K d" and "USART_RX_BUFSIZE K \<le> 255"
  shows "rx_full K d \<longleftrightarrow> length (ring_contents K d) = nat (USART_RX_BUFSIZE K - 2)"
  using assms ring_dist_full [of K "rx_buf_tail d" "rx_buf_head d"]
  by (simp add: ring_contents_def length_ring_walk rx_full_def ring_inv_def)

lemma ISR_USB_RX_push:
  assumes C: "USART_RX_BUFSIZE K \<le> 255" and inv: "ring_inv K (fd_usb s)"
    and room: "\<not> rx_full K (fd_usb s)"
  shows "ring_contents K (fd_usb (ISR_USB_RX K b s)) = ring_contents K (fd_usb s) @ [b]"
    and "ring_inv K (fd_usb (ISR_USB_RX K b s))"
    and "irqs (ISR_USB_RX K b s) = irqs s"
    and "flags (fd_usb (ISR_USB_RX K b s)) = flags (fd_usb s)"
proof -
  let ?h = "rx_buf_head (fd_usb s)" and ?t = "rx_buf_tail (fd_usb s)"
  have h: "index_ok K ?h" and t: "index_ok K ?t"
    using inv by (simp_all add: ring_inv_def)
  have ne: "advance K ?h \<noteq> ?t"
    using room by (simp add: rx_full_def)
  have isr: "ISR_USB_RX K b s =
      s\<lparr>fd_usb := (fd_usb s)\<lparr>rx_buf_head := advance K ?h,
                                rx_buf := (rx_buf (fd_usb s))(unat (advance K ?h) := b)\<rparr>\<rparr>"
    using ne by (simp add: ISR_USB_RX_advance)
  have "ring_walk K ((rx_buf (fd_usb s))(unat (advance K ?h) := b)) ?t
          (Suc (ring_dist K ?t ?h)) =
        ring_walk K (rx_buf (fd_usb s)) ?t (ring_dist K ?t ?h) @ [b]"
    using C h t refl ne by (rule ring_walk_push)
  then show "ring_contents K (fd_usb (ISR_USB_RX K b s)) = ring_contents K (fd_usb s) @ [b]"
    by (simp add: isr ring_contents_def ring_dist_push [OF t h C ne])
  show "ring_inv K (fd_usb (ISR_USB_RX K b s))"
    using inv index_ok_advance [OF h C] by (simp add: isr ring_inv_def)
  show "irqs (ISR_USB_RX K b s) = irqs s"
    by (simp add: isr)
  show "flags (fd_usb (ISR_USB_RX K b s)) = flags (fd_usb s)"
    by (simp add: isr)
qed

lemma ISR_USB_RX_frame:
  shows "flags (fd_usb (ISR_USB_RX K b s)) = flags (fd_usb s)"
    and "usart (fd_usb (ISR_USB_RX K b s)) = usart (fd_usb s)"
    and "irqs (ISR_USB_RX K b s) = irqs s"
    and "fd_rs485 (ISR_USB_RX K b s) = fd_rs485 s"
  by (simp_all add: ISR_USB_RX_def Let_def)


lemma normal_path_full: "normal_path K d \<longleftrightarrow> \<not> rx_full K d"
  by (simp add: normal_path_def rx_full_def advance_def Let_def)


lemma run_irq_bound:
  shows "usart (fd_usb s) \<noteq> NULL \<Longrightarrow>
         run_irq K (USARTC0_RXC_vect b) s = Some (ISR_USB_RX K b s)"
    and "usart (fd_rs485 s) \<noteq> NULL \<Longrightarrow>
         run_irq K (USARTC1_RXC_vect b) s = Some (ISR_USARTC1_RXC K b s)"
  by simp_all

lemma length_ring_contents:
  "ring_inv K d \<Longrightarrow> length (ring_contents K d) \<le> nat (USART_RX_BUFSIZE K - 2)"
  by (simp add: ring_contents_def length_ring_walk ring_dist_bound ring_inv_def)

text \<open>The interrupt is the push of the bounded queue, full or not.\<close>

lemma ISR_USB_RX_refines:
  assumes C: "USART_RX_BUFSIZE K \<le> 255" and inv: "ring_inv K (fd_usb s)"
  shows "ring_contents K (fd_usb (ISR_USB_RX K b s)) =
           (if length (ring_contents K (fd_usb s)) < nat (USART_RX_BUFSIZE K - 2)
            then ring_contents K (fd_usb s) @ [b] else ring_contents K (fd_usb s))"
    and "ring_inv K (fd_usb (ISR_USB_RX K b s))"
proof -
  have "ring_contents K (fd_usb (ISR_USB_RX K b s)) =
           (if length (ring_contents K (fd_usb s)) < nat (USART_RX_BUFSIZE K - 2)
            then ring_contents K (fd_usb s) @ [b] else ring_contents K (fd_usb s))
        \<and> ring_inv K (fd_usb (ISR_USB_RX K b s))"
  proof (cases "rx_full K (fd_usb s)")
    case True
    have same: "ISR_USB_RX K b s = s"
      using C inv True by (simp add: ISR_USB_RX_full ring_inv_def)
    have "length (ring_contents K (fd_usb s)) = nat (USART_RX_BUFSIZE K - 2)"
      using True inv C by (simp add: ring_contents_full)
    then show ?thesis
      using inv by (simp add: same)
  next
    case False
    note push = ISR_USB_RX_push [OF C inv False, of b]
    have "length (ring_contents K (fd_usb s)) \<noteq> nat (USART_RX_BUFSIZE K - 2)"
      using False inv C by (simp add: ring_contents_full)
    then have "length (ring_contents K (fd_usb s)) < nat (USART_RX_BUFSIZE K - 2)"
      using length_ring_contents [OF inv] by simp
    then show ?thesis
      using push(1,2) by simp
  qed
  then show "ring_contents K (fd_usb (ISR_USB_RX K b s)) =
           (if length (ring_contents K (fd_usb s)) < nat (USART_RX_BUFSIZE K - 2)
            then ring_contents K (fd_usb s) @ [b] else ring_contents K (fd_usb s))"
    and "ring_inv K (fd_usb (ISR_USB_RX K b s))"
    by simp_all
qed

text \<open>
  The single-character read on a USB ring buffer that is not empty: it steps the tail,
  takes the byte of the new tail and, when the echo flag is set, sends it through the
  USART of the USB block.
\<close>

lemma read_char_USART_usb_nonempty:
  assumes "\<not> rx_empty (fd_usb s)"
  shows "read_char_USART K Ref_fd_usb s =
     (if ECHO_ENABLED (flags (fd_usb s))
      then (if usart (fd_usb s) = NULL then None
            else Some (rx_buf (fd_usb s) (unat (advance K (rx_buf_tail (fd_usb s)))),
                   s\<lparr>fd_usb := (fd_usb s)
                       \<lparr>rx_buf_tail := advance K (rx_buf_tail (fd_usb s)),
                        usart_DATA := usart_DATA (fd_usb s)
                          @ [rx_buf (fd_usb s) (unat (advance K (rx_buf_tail (fd_usb s))))]\<rparr>\<rparr>))
      else Some (rx_buf (fd_usb s) (unat (advance K (rx_buf_tail (fd_usb s)))),
             s\<lparr>fd_usb := (fd_usb s)\<lparr>rx_buf_tail := advance K (rx_buf_tail (fd_usb s))\<rparr>\<rparr>))"
  using assms
  by (subst read_char_USART.simps)
     (simp add: rx_empty_def advance_def Let_def echo_to_console_def write_char_USART_def)

lemma read_char_USART_usb_pop:
  assumes C: "USART_RX_BUFSIZE K \<le> 255" and inv: "ring_inv K (fd_usb s)"
    and ne: "\<not> rx_empty (fd_usb s)"
    and rc: "read_char_USART K Ref_fd_usb s = Some (c, s')"
  shows "c = hd (ring_contents K (fd_usb s))"
    and "ring_contents K (fd_usb s') = tl (ring_contents K (fd_usb s))"
    and "ring_inv K (fd_usb s')"
    and "irqs s' = irqs s"
    and "flags (fd_usb s') = flags (fd_usb s)"
    and "usart (fd_usb s') = usart (fd_usb s)"
    and "fd_rs485 s' = fd_rs485 s"
proof -
  let ?h = "rx_buf_head (fd_usb s)" and ?t = "rx_buf_tail (fd_usb s)"
  have h: "index_ok K ?h" and t: "index_ok K ?t"
    using inv by (simp_all add: ring_inv_def)
  have neq: "?t \<noteq> ?h"
    using ne by (auto simp: rx_empty_def)
  have d: "ring_dist K ?t ?h = Suc (ring_dist K (advance K ?t) ?h)"
    using t h C neq by (rule ring_dist_pop)
  have t': "index_ok K (advance K ?t)"
    using t C by (rule index_ok_advance)
  have all: "c = hd (ring_contents K (fd_usb s))
      \<and> ring_contents K (fd_usb s') = tl (ring_contents K (fd_usb s))
      \<and> ring_inv K (fd_usb s') \<and> irqs s' = irqs s
      \<and> flags (fd_usb s') = flags (fd_usb s) \<and> usart (fd_usb s') = usart (fd_usb s)
      \<and> fd_rs485 s' = fd_rs485 s"
    using rc t' h
    by (auto simp: read_char_USART_usb_nonempty [OF ne] ring_contents_def d ring_inv_def
        split: if_splits)
  from all show "c = hd (ring_contents K (fd_usb s))" by simp
  from all show "ring_contents K (fd_usb s') = tl (ring_contents K (fd_usb s))" by simp
  from all show "ring_inv K (fd_usb s')" by simp
  from all show "irqs s' = irqs s" by simp
  from all show "flags (fd_usb s') = flags (fd_usb s)" by simp
  from all show "usart (fd_usb s') = usart (fd_usb s)" by simp
  from all show "fd_rs485 s' = fd_rs485 s" by simp
qed

text \<open>
  With the USART of the USB block bound, or the echo flag cleared, the read of a
  non-empty buffer returns.
\<close>

lemma read_char_USART_usb_returns:
  assumes "\<not> rx_empty (fd_usb s)"
    and "usart (fd_usb s) \<noteq> NULL \<or> \<not> ECHO_ENABLED (flags (fd_usb s))"
  shows "\<exists>c s'. read_char_USART K Ref_fd_usb s = Some (c, s')"
  using assms(2) by (auto simp: read_char_USART_usb_nonempty [OF assms(1)])


subsection \<open>The bounded queue\<close>






subsection \<open>The single-character read is the pop of the queue\<close>



text \<open>
  A blocking read of the empty USB buffer whose next pending interrupt is that of the USB
  receiver sleeps once and returns the byte of that interrupt, for a capacity of at least
  3 (a buffer that can hold a byte).
\<close>

lemma read_char_USART_usb_woken:
  assumes C: "USART_RX_BUFSIZE K \<le> 255" and C3: "3 \<le> USART_RX_BUFSIZE K"
    and inv: "ring_inv K (fd_usb s)" and bound: "usart (fd_usb s) \<noteq> NULL"
    and empty: "rx_empty (fd_usb s)" and blocking: "BLOCKING_ENABLED (flags (fd_usb s))"
    and next_irq: "irqs s = USARTC0_RXC_vect b # qs"
  shows "\<exists>s'. read_char_USART K Ref_fd_usb s = Some (b, s') \<and> irqs s' = qs"
proof -
  let ?s0 = "s\<lparr>sleeps := sleeps s + 1, irqs := qs\<rparr>"
  let ?s1 = "ISR_USB_RX K b ?s0"
  have inv0: "ring_inv K (fd_usb ?s0)"
    using inv by simp
  have sl: "sleep_mode K s = Some ?s1"
    using next_irq bound by (simp add: sleep_mode_def)
  have nil: "ring_contents K (fd_usb ?s0) = []"
    using inv empty by (simp add: ring_contents_empty)
  have "0 < nat (USART_RX_BUFSIZE K - 2)"
    using C3 by linarith
  then have room: "length (ring_contents K (fd_usb ?s0)) < nat (USART_RX_BUFSIZE K - 2)"
    by (simp only: nil list.size)
  have "ring_contents K (fd_usb ?s1) = ring_contents K (fd_usb ?s0) @ [b]"
    using ISR_USB_RX_refines(1) [OF C inv0, of b] room by (simp only: if_True)
  then have q1: "ring_contents K (fd_usb ?s1) = [b]"
    by (simp only: nil append_Nil)
  have inv1: "ring_inv K (fd_usb ?s1)"
    using C inv0 by (rule ISR_USB_RX_refines(2))
  have ne1: "\<not> rx_empty (fd_usb ?s1)"
    using ring_contents_empty [OF inv1] q1 by simp
  have "usart (fd_usb ?s1) \<noteq> NULL"
    using bound by (simp add: ISR_USB_RX_frame)
  then have "usart (fd_usb ?s1) \<noteq> NULL \<or> \<not> ECHO_ENABLED (flags (fd_usb ?s1))"
    by simp
  with ne1 obtain c s' where rc1: "read_char_USART K Ref_fd_usb ?s1 = Some (c, s')"
    using read_char_USART_usb_returns by blast
  note pop = read_char_USART_usb_pop [OF C inv1 ne1 rc1]
  have c: "c = b"
    using pop(1) q1 by simp
  have i: "irqs s' = qs"
    using pop(4) by (simp add: ISR_USB_RX_frame)
  have "read_char_USART K Ref_fd_usb s = read_char_USART K Ref_fd_usb ?s1"
    using empty blocking sl by (subst read_char_USART.simps) (simp add: rx_empty_def)
  then show ?thesis
    using rc1 c i by simp
qed



subsection \<open>Runs of the USB ring buffer\<close>



text \<open>
  Two runs on the device opened with \<^verbatim>\<open>IO_RDNONBLOCK\<close>. With the capacity 32 three
  pushed bytes are delivered in order. With the capacity 4 the buffer holds two bytes:
  after four pushes the third byte has been dropped and the fourth is delivered in its
  place, so the bound on the number of pushes cannot be raised to \<open>C\<close>. A third run, on
  the device opened with the defaults and two interrupts pending: the pop sleeps once, is
  woken by the interrupt of the byte 0x41, and delivers it.
\<close>

lemma usb_run_example:
  "map_option (\<lambda>(evs, cs, s'). cs)
     (usb_run typical [Push 0x41, Push 0x42, Pop, Push 0x43, Pop, Pop, Pop]
        (usb_nonblocking typical [])) = Some [0x41, 0x42, 0x43]"
  by (simp add: usb_nonblocking_def typical_def ISR_USB_RX_def Let_def read_char_USART.simps
      xio_getc_def xio_consts echo_to_console_def write_char_USART_def zero_mem_def
      rx_empty_def)

lemma usb_run_capacity_pushes:
  "map_option (\<lambda>(evs, cs, s'). cs)
     (usb_run (typical\<lparr>USART_RX_BUFSIZE := 4\<rparr>)
        [Push 0x41, Push 0x42, Push 0x43, Pop, Push 0x44, Pop, Pop]
        (usb_nonblocking (typical\<lparr>USART_RX_BUFSIZE := 4\<rparr>) [])) = Some [0x41, 0x42, 0x44]"
  by (simp add: usb_nonblocking_def typical_def ISR_USB_RX_def Let_def read_char_USART.simps
      xio_getc_def xio_consts echo_to_console_def write_char_USART_def zero_mem_def
      rx_empty_def)

lemma usb_run_blocking_pop:
  "map_option (\<lambda>(evs, cs, s'). (evs, cs, sleeps s', irqs s'))
     (usb_run typical [Pop]
        (usb_opened typical [USARTC0_RXC_vect 0x41, USARTC0_RXC_vect 0x42])) =
   Some ([Push 0x41, Pop], [0x41], 1, [USARTC0_RXC_vect 0x42])"
  by (simp add: usb_opened_def typical_def ISR_USB_RX_def Let_def read_char_USART.simps
      sleep_mode_def xio_getc_def xio_consts echo_to_console_def write_char_USART_def
      zero_mem_def rx_empty_def woken_by_def)


subsection \<open>Index ranges are preserved\<close>











text \<open>
  The wrap of \<^verbatim>\<open>_read_char_USART\<close> names \<^verbatim>\<open>fd_usb\<close> where the step before it went
  through \<^verbatim>\<open>f\<close>. No entry point of the module passes it another block: \<^verbatim>\<open>xio_getc\<close>
  and \<^verbatim>\<open>xio_read\<close> dispatch the USB handle only, and \<^verbatim>\<open>xio_open\<close> opens the USB device
  only. Called for the RS-485 block (echo off, tail 1, buffer not empty) it would leave
  the RS-485 tail at 0 and store \<open>C - 1\<close> into the USB tail.
\<close>

lemma read_char_USART_rs485_wrap:
  assumes "rx_buf_tail (fd_rs485 s) = 1" and "rx_buf_head (fd_rs485 s) \<noteq> 1"
    and "\<not> ECHO_ENABLED (flags (fd_rs485 s))"
  shows "read_char_USART K Ref_fd_rs485 s =
     Some (rx_buf (fd_rs485 s) 0,
       s\<lparr>fd_rs485 := (fd_rs485 s)\<lparr>rx_buf_tail := 0\<rparr>,
         fd_usb := (fd_usb s)\<lparr>rx_buf_tail := word_of_int (USART_RX_BUFSIZE K - 1)\<rparr>\<rparr>)"
  using assms
  by (subst read_char_USART.simps) (simp add: Let_def)


subsection \<open>The exact-count write loop\<close>

text \<open>
  When none of the bytes sent is 0xFF, the loop started with the count \<open>sz\<close> sends the
  \<open>sz - 1\<close> bytes from the index \<open>i\<close> on and returns the index after them; a request
  \<open>sz\<close> within the limit therefore sends \<open>sz - 1\<close> bytes and returns \<open>sz - 1\<close>. The
  control block is one whose USART is bound.
\<close>

lemma assign_usart_DATA_append:
  "assign f (\<lambda>d. d\<lparr>usart_DATA := usart_DATA d @ ys\<rparr>)
     (assign f (\<lambda>d. d\<lparr>usart_DATA := usart_DATA d @ xs\<rparr>) s) =
   assign f (\<lambda>d. d\<lparr>usart_DATA := usart_DATA d @ xs @ ys\<rparr>) s"
  by (cases f) simp_all

lemma assign_id: "assign f (\<lambda>d. d) s = s"
  by (cases f) simp_all

lemma map_upt_first: "map g [i..<i + Suc n] = [g i] @ map g [i + 1..<i + 1 + n]"
  by (simp add: upt_conv_Cons del: upt_Suc)

lemma assign_usart_DATA_usart:
  "usart (deref (assign f (\<lambda>d. d\<lparr>usart_DATA := usart_DATA d @ xs\<rparr>) s) f) = usart (deref s f)"
  by (cases f) simp_all

lemma write_usb_SIZE_sends:
  "usart (deref s f) \<noteq> NULL \<Longrightarrow> (\<forall>k<unat (sz - 1). buf (i + k) \<noteq> - 1) \<Longrightarrow>
   write_usb_SIZE f buf i sz s =
     Some (word_of_nat (i + unat (sz - 1)),
      assign f (\<lambda>d. d\<lparr>usart_DATA := usart_DATA d @ map buf [i..<i + unat (sz - 1)]\<rparr>) s)"
proof (induction f buf i sz s rule: write_usb_SIZE.induct)
  case (1 f buf i sz s)
  show ?case
  proof (cases "sz - 1 = 0")
    case True
    then show ?thesis
      by (subst write_usb_SIZE.simps) (simp add: assign_id)
  next
    case False
    have step: "Suc (unat (sz - 1 - 1)) = unat (sz - 1)"
      using False unat_pred_Suc [of sz] by simp
    have first: "buf i \<noteq> - 1"
      using "1.prems"(2) step by (metis add.right_neutral zero_less_Suc)
    have rest: "\<forall>k<unat (sz - 1 - 1). buf (i + 1 + k) \<noteq> - 1"
      using "1.prems"(2) step
      by (metis Suc_less_eq add_Suc_right add_Suc_shift plus_1_eq_Suc add.commute)
    let ?s1 = "assign f (\<lambda>d. d\<lparr>usart_DATA := usart_DATA d @ [buf i]\<rparr>) s"
    have wc: "write_char_USART f (buf i) s = Some (buf i, ?s1)"
      using "1.prems"(1) by (simp add: write_char_USART_def)
    have bound: "usart (deref ?s1 f) \<noteq> NULL"
      using "1.prems"(1) by (simp only: assign_usart_DATA_usart) simp
    have "write_usb_SIZE f buf i sz s = write_usb_SIZE f buf (i + 1) (sz - 1) ?s1"
      using False first by (subst write_usb_SIZE.simps) (simp add: wc)
    also have "\<dots> = Some (word_of_nat (i + 1 + unat (sz - 1 - 1)),
        assign f (\<lambda>d. d\<lparr>usart_DATA :=
          usart_DATA d @ map buf [i + 1..<i + 1 + unat (sz - 1 - 1)]\<rparr>) ?s1)"
      using False wc refl first bound rest by (rule "1.IH")
    also have "\<dots> = Some (word_of_nat (i + unat (sz - 1)),
        assign f (\<lambda>d. d\<lparr>usart_DATA := usart_DATA d @ map buf [i..<i + unat (sz - 1)]\<rparr>) s)"
    proof -
      have e1: "i + 1 + unat (sz - 1 - 1) = i + unat (sz - 1)"
        using step by simp
      have e2: "map buf [i..<i + unat (sz - 1)] =
          [buf i] @ map buf [i + 1..<i + 1 + unat (sz - 1 - 1)]"
        unfolding step [symmetric] by (rule map_upt_first)
      show ?thesis
        by (simp only: assign_usart_DATA_append e1 e2)
    qed
    finally show ?thesis .
  qed
qed

lemma write_usb_exact_count:
  assumes "0 <s sz" and "\<not> rx_size_max (deref s f) <s sz"
    and "\<forall>k<unat sz - 1. buf k \<noteq> - 1" and "usart (deref s f) \<noteq> NULL"
  shows "write_usb K f buf pgm sz s =
     Some (sz - 1,
           assign f (\<lambda>d. d\<lparr>usart_DATA := usart_DATA d @ map buf [0..<unat sz - 1]\<rparr>) s)"
proof -
  have n: "unat (sz - 1) = unat sz - 1"
    using positive_request(4) [OF assms(1)] by simp
  have "write_usb K f buf pgm sz s = write_usb_SIZE f buf 0 sz s"
    using assms(1,2) positive_request(1,2) [OF assms(1)]
    by (simp add: write_usb_def PSTR_MODE_def SIZE_MODE_def word_sless_alt)
  also have "\<dots> =
      Some (word_of_nat (0 + unat (sz - 1)),
       assign f (\<lambda>d. d\<lparr>usart_DATA := usart_DATA d @ map buf [0..<0 + unat (sz - 1)]\<rparr>) s)"
    using assms(4,3) n by (intro write_usb_SIZE_sends) simp_all
  also have "word_of_nat (0 + unat (sz - 1)) = sz - 1"
    by simp
  finally show ?thesis
    using n by simp
qed

subsection \<open>The size check and the open flags\<close>

text \<open>
  Read and write both compare a non-zero request with the receive limit and fail with
  \<^verbatim>\<open>EFBIG\<close>, transferring nothing, when it is above.
\<close>

lemma read_usb_too_big:
  "sz \<noteq> 0 \<Longrightarrow> rx_size_max (deref s f) <s sz \<Longrightarrow>
   read_usb K f buf sz s = Some (- 1, buf, s\<lparr>errno := EFBIG\<rparr>)"
  by (simp add: read_usb_def)

lemma write_usb_too_big:
  "sz \<noteq> 0 \<Longrightarrow> rx_size_max (deref s f) <s sz \<Longrightarrow>
   write_usb K f buf pgm sz s = Some (- 1, s\<lparr>errno := EFBIG\<rparr>)"
  by (simp add: write_usb_def)


text \<open>
  A control word without \<^verbatim>\<open>IO_RDONLY\<close>: the open succeeds with the handle 1 and the
  write flag set, and the read flag is set only for the control word 0.
\<close>

lemma xio_open_read_flag:
  assumes "control AND IO_RDONLY = 0"
    and "xio_open K DEV_USB control s = Some (r, s')"
  shows "r = 1" and "WRITE_ENABLED (flags (fd_usb s'))"
    and "READ_ENABLED (flags (fd_usb s')) \<longleftrightarrow> control = 0"
proof -
  have both: "control AND (IO_RDONLY OR IO_WRONLY) \<noteq> IO_RDONLY OR IO_WRONLY"
  proof
    assume eq: "control AND (IO_RDONLY OR IO_WRONLY) = IO_RDONLY OR IO_WRONLY"
    have "bit (control AND (IO_RDONLY OR IO_WRONLY)) 8 = bit (IO_RDONLY OR IO_WRONLY) 8"
      by (simp only: eq)
    then have "bit control 8"
      by (simp add: IO_RDONLY_def IO_WRONLY_def bit_simps)
    moreover have "\<not> bit (control AND IO_RDONLY) 8"
      using assms(1) by simp
    then have "\<not> bit control 8"
      by (simp add: IO_RDONLY_def bit_simps)
    ultimately show False
      by simp
  qed
  from assms(2) both assms(1) show "r = 1" and "WRITE_ENABLED (flags (fd_usb s'))"
    and "READ_ENABLED (flags (fd_usb s')) \<longleftrightarrow> control = 0"
    by (auto simp: xio_open_def open_usb_def open_USART_def Let_def DEV_USB_def DEV_USARTC0_def
        DEV_USARTC1_def fdes_def fd_ptrs_def IO_FLAG_DEFAULT_gm_def IO_FLAG_RD_bm_def
        IO_FLAG_WR_bm_def IO_FLAG_RD_BLOCK_bm_def IO_FLAG_ECHO_CHAR_bm_def READ_ENABLED_def
        WRITE_ENABLED_def IO_RDONLY_def split: if_splits)
qed


section \<open>The claims\<close>

text \<open>
  C1. The exact-count loop of \<^verbatim>\<open>_write_usb\<close> decrements the count before it sends a
  byte. On the USB device as \<^verbatim>\<open>xio_open\<close> leaves it, a write of one byte returns 0 and
  sends nothing (the module state is unchanged, whatever the source holds), and a write of
  three bytes sends the first two bytes of the source and returns 2.
\<close>

theorem write_exact_count_one_short:
  "xio_write typical FD_USB buf pgm 1 (usb_opened typical qs) =
     Some (0, usb_opened typical qs)
   \<and> map_option (\<lambda>(r, s'). (r, usart_DATA (fd_usb s')))
        (xio_write typical FD_USB (zero_mem(0 := 0x41, 1 := 0x42, 2 := 0x43)) pgm 3
           (usb_opened typical qs)) =
     Some (2, [0x41, 0x42])"
  by (simp add: xio_write_def write_usb_def xio_consts usb_opened_def typical_def
      write_usb_SIZE.simps write_char_USART_def Let_def word_sless_alt zero_mem_def)



text \<open>
  C3. When the ring buffer of a device is full (its head, advanced by one step, would
  equal its tail), the receive interrupt of that device leaves the whole module state as
  it was: every stored byte, the head and the tail, and everything else. This holds for
  the USB handler and for the RS-485 handler, for a head index in \<open>[1, C - 1]\<close> and a
  capacity \<open>C\<close> of at most 255.
\<close>

theorem isr_full_leaves_state:
  assumes "USART_RX_BUFSIZE K \<le> 255"
  shows "(index_ok K (rx_buf_head (fd_usb s)) \<and> rx_full K (fd_usb s)
            \<longrightarrow> ISR_USB_RX K b s = s)
       \<and> (index_ok K (rx_buf_head (fd_rs485 s)) \<and> rx_full K (fd_rs485 s)
            \<longrightarrow> ISR_USARTC1_RXC K b s = s)"
  using assms ISR_USB_RX_full ISR_USARTC1_RXC_full by blast

theorem isr_full_leaves_state_witness:
  "USART_RX_BUFSIZE typical \<le> 255
   \<and> index_ok typical (rx_buf_head (fd_usb full_rings)) \<and> rx_full typical (fd_usb full_rings)
   \<and> ISR_USB_RX typical 0x41 full_rings = full_rings
   \<and> index_ok typical (rx_buf_head (fd_rs485 full_rings))
   \<and> rx_full typical (fd_rs485 full_rings)
   \<and> ISR_USARTC1_RXC typical 0x41 full_rings = full_rings"
proof -
  have C: "USART_RX_BUFSIZE typical \<le> 255"
    by (simp add: typical_def)
  have u: "index_ok typical (rx_buf_head (fd_usb full_rings))
      \<and> rx_full typical (fd_usb full_rings)"
    by (simp add: typical_def full_rings_def fdUSART_zero_def index_ok_def rx_full_def
        advance_def)
  have r: "index_ok typical (rx_buf_head (fd_rs485 full_rings))
      \<and> rx_full typical (fd_rs485 full_rings)"
    by (simp add: typical_def full_rings_def fdUSART_zero_def index_ok_def rx_full_def
        advance_def)
  show ?thesis
    using isr_full_leaves_state [OF C, of full_rings "0x41"] C u r by simp
qed



text \<open>
  C5. \<^verbatim>\<open>xio_open\<close> of the USB device with a control word that carries only the baud-rate
  selector \<^verbatim>\<open>IO_BAUD_115200\<close> succeeds with the handle 1 and leaves the read flag cleared:
  the second test of \<^verbatim>\<open>_open_USART\<close> is \<^verbatim>\<open>control && IO_RDONLY\<close>, true of every control
  word other than 0. The write flag is set, and the flags are 0x16.
\<close>

theorem open_baud_only_clears_read_flag:
  "map_option
     (\<lambda>(r, s'). (r, READ_ENABLED (flags (fd_usb s')), WRITE_ENABLED (flags (fd_usb s')),
                  flags (fd_usb s')))
     (xio_open K DEV_USB (ucast IO_BAUD_115200) (power_on qs)) =
   Some (1, False, True, 0x16)"
  by (simp add: xio_open_def open_usb_def open_USART_def xio_consts power_on_def
      fdUSART_zero_def usel_def Let_def)

text \<open>
  C6. \<^verbatim>\<open>_write_usb\<close> compares the request with the receive limit \<^verbatim>\<open>rx_size_max\<close>, not
  with the transmit limit. With the receive limit 31: (1) on the device as opened, whose
  transmit limit is "no limit", a write of 40 bytes fails with \<^verbatim>\<open>EFBIG\<close>; (2) with the
  transmit limit 100, a write of 50 bytes fails with \<^verbatim>\<open>EFBIG\<close> and sends nothing; (3) with
  the transmit limit 2, a write of 4 bytes does not fail: it sends bytes and returns 3.
\<close>

theorem write_limit_is_the_receive_limit:
  "xio_write typical FD_USB buf pgm 40 (usb_opened typical qs) =
     Some (- 1, (usb_opened typical qs)\<lparr>errno := EFBIG\<rparr>)
   \<and> xio_write typical FD_USB buf pgm 50
       ((usb_opened typical qs)
          \<lparr>fd_usb := (fd_usb (usb_opened typical qs))\<lparr>tx_size_max := 100\<rparr>\<rparr>) =
     Some (- 1, (usb_opened typical qs)
          \<lparr>fd_usb := (fd_usb (usb_opened typical qs))\<lparr>tx_size_max := 100\<rparr>,
           errno := EFBIG\<rparr>)
   \<and> map_option (\<lambda>(r, s'). (r, errno s', usart_DATA (fd_usb s')))
       (xio_write typical FD_USB zero_mem pgm 4
          ((usb_opened typical qs)
             \<lparr>fd_usb := (fd_usb (usb_opened typical qs))\<lparr>tx_size_max := 2\<rparr>\<rparr>)) =
     Some (3, E_NONE, [0, 0, 0])"
  by (simp add: xio_write_def write_usb_def xio_consts usb_opened_def typical_def
      write_usb_SIZE.simps write_char_USART_def Let_def word_sless_alt zero_mem_def)

text \<open>
  C7. With the read limit 5 (\<^verbatim>\<open>READ_BUFFER_SIZE\<close> 6) and the seven bytes of "TOOLONG"
  received, a string-mode read (request -2) returns -1 with the error \<^verbatim>\<open>EFBIG\<close>, the
  "too big" error of the exact-count check, having stored "TOOLO" and a terminator. The
  line-mode read (request -1) of the same input returns -1 with \<^verbatim>\<open>EMSGSIZE\<close>, "message too
  big", and the same bytes.
\<close>

theorem string_mode_limit_sets_EFBIG:
  "map_option (\<lambda>(r, b, s'). (r, map b [0..<6], errno s'))
     (xio_read (typical\<lparr>READ_BUFFER_SIZE := 6\<rparr>) FD_USB zero_mem (- 2)
        (usb_receive (typical\<lparr>READ_BUFFER_SIZE := 6\<rparr>)
           [0x54, 0x4F, 0x4F, 0x4C, 0x4F, 0x4E, 0x47]
           (usb_opened (typical\<lparr>READ_BUFFER_SIZE := 6\<rparr>) []))) =
     Some (- 1, [0x54, 0x4F, 0x4F, 0x4C, 0x4F, 0], EFBIG)
   \<and> map_option (\<lambda>(r, b, s'). (r, map b [0..<6], errno s'))
     (xio_read (typical\<lparr>READ_BUFFER_SIZE := 6\<rparr>) FD_USB zero_mem (- 1)
        (usb_receive (typical\<lparr>READ_BUFFER_SIZE := 6\<rparr>)
           [0x54, 0x4F, 0x4F, 0x4C, 0x4F, 0x4E, 0x47]
           (usb_opened (typical\<lparr>READ_BUFFER_SIZE := 6\<rparr>) []))) =
     Some (- 1, [0x54, 0x4F, 0x4F, 0x4C, 0x4F, 0], EMSGSIZE)"
  by (simp add: xio_read_def read_usb_def xio_consts usb_opened_def typical_def
      word_sless_alt ISR_USB_RX_def Let_def read_usb_STR.simps read_usb_LINE.simps
      read_char_USART.simps echo_to_console_def write_char_USART_def upt_rec zero_mem_def
      ucast_minus_one_16_8)

text \<open>
  C8, as amended. For every device whose receive ring buffer is empty and whose blocking
  flag is cleared, the single-character read returns -1 with \<^verbatim>\<open>EAGAIN\<close>, and so does every
  bulk read whose request passes the checks of \<^verbatim>\<open>_read_usb\<close> (not 0, not above the receive
  limit, not below -2). In both cases the state returned is the state at the call with
  the error number set: the sleep counter and the pending interrupts are untouched, so
  the sleep state was never entered.
\<close>

theorem nonblocking_empty_read_would_block:
  assumes "rx_empty (deref s f)" and "\<not> BLOCKING_ENABLED (flags (deref s f))"
  shows "read_char_USART K f s = Some (- 1, s\<lparr>errno := EAGAIN\<rparr>)
       \<and> (sz \<noteq> 0 \<and> \<not> rx_size_max (deref s f) <s sz \<and> \<not> sz <s - 2 \<longrightarrow>
            (\<exists>buf'. read_usb K f buf sz s = Some (- 1, buf', s\<lparr>errno := EAGAIN\<rparr>)))
       \<and> sleeps (s\<lparr>errno := EAGAIN\<rparr>) = sleeps s \<and> irqs (s\<lparr>errno := EAGAIN\<rparr>) = irqs s"
proof -
  note rc = read_char_USART_would_block [OF assms, of K]
  have "\<exists>buf'. read_usb K f buf sz s = Some (- 1, buf', s\<lparr>errno := EAGAIN\<rparr>)"
    if req: "sz \<noteq> 0" "\<not> rx_size_max (deref s f) <s sz" "\<not> sz <s - 2"
  proof (cases "0 <s sz")
    case True
    then show ?thesis
      using req rc by (simp add: read_usb_exact_count read_usb_SIZE.simps)
  next
    case False
    from negative_request [OF False req(1,3)] show ?thesis
    proof
      assume "sz = - 1"
      then show ?thesis
        using req rc
        by (simp add: read_usb_def STR_MODE_def SIZE_MODE_def LINE_MODE_def
            ucast_minus_one_16_8 read_usb_LINE.simps word_sless_alt)
    next
      assume "sz = - 2"
      then show ?thesis
        using req rc
        by (simp add: read_usb_def STR_MODE_def SIZE_MODE_def LINE_MODE_def
            read_usb_STR.simps word_sless_alt)
    qed
  qed
  with rc show ?thesis
    by simp
qed

theorem nonblocking_empty_read_would_block_witness:
  "rx_empty (deref (usb_nonblocking typical []) Ref_fd_usb)
   \<and> \<not> BLOCKING_ENABLED (flags (deref (usb_nonblocking typical []) Ref_fd_usb))
   \<and> read_char_USART typical Ref_fd_usb (usb_nonblocking typical []) =
       Some (- 1, (usb_nonblocking typical [])\<lparr>errno := EAGAIN\<rparr>)
   \<and> (\<exists>buf'. read_usb typical Ref_fd_usb zero_mem (- 1) (usb_nonblocking typical []) =
       Some (- 1, buf', (usb_nonblocking typical [])\<lparr>errno := EAGAIN\<rparr>))"
proof -
  have e: "rx_empty (deref (usb_nonblocking typical []) Ref_fd_usb)"
    by (simp add: rx_empty_def usb_nonblocking_def)
  have n: "\<not> BLOCKING_ENABLED (flags (deref (usb_nonblocking typical []) Ref_fd_usb))"
    by (simp add: usb_nonblocking_def xio_consts)
  have q: "(- 1 :: int16_t) \<noteq> 0
      \<and> \<not> rx_size_max (deref (usb_nonblocking typical []) Ref_fd_usb) <s - 1
      \<and> \<not> (- 1 :: int16_t) <s - 2"
    by (simp add: usb_nonblocking_def typical_def word_sless_alt)
  show ?thesis
    using nonblocking_empty_read_would_block [OF e n, of typical "- 1" zero_mem] e n q
    by simp
qed

text \<open>
  C8 as stated fails for the bulk read: on the USB device opened with \<^verbatim>\<open>IO_RDNONBLOCK\<close>,
  whose ring buffer is empty, a read with the request 0 returns 0, and a read with the
  request 100, above the limit 31, returns -1 with \<^verbatim>\<open>EFBIG\<close>. Neither looks at the buffer.
\<close>

theorem nonblocking_empty_read_counterexample:
  "rx_empty (fd_usb (usb_nonblocking typical []))
   \<and> \<not> BLOCKING_ENABLED (flags (fd_usb (usb_nonblocking typical [])))
   \<and> xio_read typical FD_USB zero_mem 0 (usb_nonblocking typical []) =
       Some (0, zero_mem, usb_nonblocking typical [])
   \<and> (0 :: int16_t) \<noteq> - 1
   \<and> xio_read typical FD_USB zero_mem 100 (usb_nonblocking typical []) =
       Some (- 1, zero_mem, (usb_nonblocking typical [])\<lparr>errno := EFBIG\<rparr>)
   \<and> EFBIG \<noteq> EAGAIN"
  by (simp add: xio_read_def read_usb_def xio_consts usb_nonblocking_def typical_def
      word_sless_alt rx_empty_def)

text \<open>
  C9. An exact-count read (request greater than 0 and within the receive limit) that
  aborts has stored 0xFF at the output position it had reached. Let the single-character
  read return the bytes \<open>cs\<close>, none of them 0xFF and fewer than the request, and then
  return -1. The read then returns -1, and the destination it leaves is the destination
  it was given with \<open>cs\<close> stored from index 0 and 0xFF stored at index \<open>length cs\<close>, the
  position of the next byte; no other cell has changed. The state is the one the failing
  single-character read left. With \<open>cs\<close> empty this is the read on an empty device with
  blocking disabled: 0xFF is at index 0.
\<close>

theorem exact_count_read_abort_stores_sentinel:
  assumes "0 <s sz" and "\<not> rx_size_max (deref s f) <s sz"
    and "read_chars K f (length cs) s = Some (cs, s1)" and "- 1 \<notin> set cs"
    and "length cs < unat sz" and "read_char_USART K f s1 = Some (- 1, s2)"
  shows "read_usb K f buf sz s =
           Some (- 1, (store_bytes buf 0 cs)(length cs := - 1), s2)"
proof -
  have "length cs \<le> unat (sz - 1)"
    using assms(5) positive_request(4) [OF assms(1)] by simp
  with assms(3,4) have "read_usb_SIZE K f buf 0 sz s =
      Some (- 1, (store_bytes buf 0 cs)(0 + length cs := - 1), s2)"
    using assms(6) by (rule read_usb_SIZE_stores)
  then show ?thesis
    using assms(1,2) by (simp add: read_usb_exact_count)
qed

text \<open>
  The witness: the USB device opened with \<^verbatim>\<open>IO_RDNONBLOCK\<close> has received the one byte
  0x41 and is asked for three, through \<^verbatim>\<open>xio_read\<close>. The single-character read returns
  0x41 and then -1 with \<^verbatim>\<open>EAGAIN\<close>; the read stores 0x41 at index 0 and 0xFF at index 1,
  leaves index 2 alone and returns -1.
\<close>

theorem exact_count_read_abort_stores_sentinel_witness:
  "0 <s (3 :: int16_t)
   \<and> \<not> rx_size_max
          (deref (usb_receive typical [0x41] (usb_nonblocking typical [])) Ref_fd_usb) <s 3
   \<and> map_option fst
        (read_chars typical Ref_fd_usb (length [0x41 :: char_t])
           (usb_receive typical [0x41] (usb_nonblocking typical []))) = Some [0x41]
   \<and> - 1 \<notin> set [0x41 :: char_t]
   \<and> length [0x41 :: char_t] < unat (3 :: int16_t)
   \<and> map_option (\<lambda>(r, b, s'). (r, map b [0..<3], errno s'))
        (xio_read typical FD_USB (zero_mem(0 := 0x11, 1 := 0x12, 2 := 0x13)) 3
           (usb_receive typical [0x41] (usb_nonblocking typical []))) =
      Some (- 1, [0x41, - 1, 0x13], EAGAIN)"
proof -
  let ?s = "usb_receive typical [0x41] (usb_nonblocking typical [])"
  let ?s1 = "?s\<lparr>fd_usb := (fd_usb ?s)\<lparr>rx_buf_tail := 31, usart_DATA := [0x41]\<rparr>\<rparr>"
  let ?buf = "zero_mem(0 := 0x11, 1 := 0x12, 2 := 0x13)"
  have p: "0 <s (3 :: int16_t)"
    by (simp add: word_sless_alt)
  have l: "\<not> rx_size_max (deref ?s Ref_fd_usb) <s 3"
    by (simp add: usb_nonblocking_def typical_def ISR_USB_RX_def Let_def word_sless_alt)
  have r: "read_chars typical Ref_fd_usb (length [0x41 :: char_t]) ?s = Some ([0x41], ?s1)"
    by (simp add: xio_consts usb_nonblocking_def typical_def ISR_USB_RX_def Let_def
        read_char_USART.simps echo_to_console_def write_char_USART_def)
  have n: "- 1 \<notin> set [0x41 :: char_t]" "length [0x41 :: char_t] < unat (3 :: int16_t)"
    by simp_all
  have e: "read_char_USART typical Ref_fd_usb ?s1 = Some (- 1, ?s1\<lparr>errno := EAGAIN\<rparr>)"
    by (intro read_char_USART_would_block)
       (simp_all add: xio_consts usb_nonblocking_def typical_def ISR_USB_RX_def Let_def
          rx_empty_def)
  from exact_count_read_abort_stores_sentinel [OF p l r n e, of ?buf]
  have "xio_read typical FD_USB ?buf 3 ?s =
      Some (- 1, (store_bytes ?buf 0 [0x41])(length [0x41 :: char_t] := - 1),
            ?s1\<lparr>errno := EAGAIN\<rparr>)"
    by (simp only: xio_read_usb)
  then show ?thesis
    using p l r n by (simp add: upt_rec zero_mem_def)
qed

text \<open>
  C10. \<^verbatim>\<open>xio_close\<close> returns 0 for every handle, whether or not the handle belongs to a
  device of the table, and leaves the whole module state, the error number included, as it
  was; in particular it never returns -1.
\<close>

theorem xio_close_returns_zero:
  "xio_close h s = (0, s) \<and> fst (xio_close h s) \<noteq> - 1 \<and> errno (snd (xio_close h s)) = errno s"
  by (simp add: xio_close_def)

end
